theory Spec2Isabelle
  imports Main "HOL-Library.Sublist"
begin

section \<open>Python values, the object heap and the file system\<close>

text \<open>
  The store of \<^verbatim>\<open>database.py\<close> keeps a Python object (\<^verbatim>\<open>self._db\<close>) and a caller-supplied
  default object. Both may be mutable containers that other references alias, so containers
  live in an explicit heap: a value is an immutable atom or a reference to a heap object, and a
  heap object is a list or a dict whose elements are values again. Addresses are indices into
  the heap; allocation appends. Dicts keep insertion order and have string keys (what the
  serialisation format can hold). Floating point numbers are not modelled.
\<close>

datatype pyval = PNone | PBool bool | PInt int | PStr string | PRef nat

datatype pyobj = PyList "pyval list" | PyDict "(string \<times> pyval) list"

type_synonym heap = "pyobj list"

text \<open>The value trees of the serialisation format (what \<^verbatim>\<open>json.dumps\<close> walks and
  \<^verbatim>\<open>json.loads\<close> produces).\<close>

datatype json = JNull | JBool bool | JInt int | JStr string
  | JList "json list" | JDict "(string \<times> json) list"

text \<open>Exceptions as values. \<open>InvalidKeyError\<close> is \<^verbatim>\<open>crypto.InvalidKeyError\<close>;
  \<open>LibraryError\<close> stands for any other exception class raised by a collaborator.\<close>

datatype pyerr =
    Exception string
  | AssertionError string
  | InvalidKeyError
  | AttributeError string
  | TypeError string
  | ValueError string
  | FileNotFoundError string
  | IsADirectoryError string
  | PermissionError string
  | RecursionError
  | LibraryError string

text \<open>The file system: a path names nothing, a regular file with its content, or a
  directory. Text and binary files both hold a string of bytes.\<close>

datatype node = File string | Dir

type_synonym filesystem = "string \<Rightarrow> node option"

text \<open>Observable actions, in the order they happen. \<open>OpenFile p mode\<close> for a writing mode
  creates or truncates \<open>p\<close>.\<close>

datatype 'md event =
    CheckStringKey 'md "string option"
  | MakeNew "string option"
  | Encrypt 'md string
  | Decrypt 'md string
  | ReadFile string
  | OpenFile string string
  | WriteFile string string

text \<open>The world of a call: the heap, the file system, what the process may do with a path,
  the entropy the Crypto Provider draws from, and the trace of what has happened.
  \<open>readable p\<close>: the permissions of the file at \<open>p\<close> allow reading. \<open>writable p\<close>: the
  permissions of the file at \<open>p\<close> allow writing, and where \<open>p\<close> names nothing a file may be
  created there (a file the process creates is one it may write). \<open>directory_missing p\<close>: the
  directory of \<open>p\<close> does not exist, which decides the exception when creating fails.\<close>

record 'md world =
  heap :: heap
  fs :: filesystem
  readable :: "string \<Rightarrow> bool"
  writable :: "string \<Rightarrow> bool"
  directory_missing :: "string \<Rightarrow> bool"
  rnd :: nat
  trace :: "'md event list"

text \<open>The process may open \<open>p\<close> in every mode.\<close>

definition openable :: "'md world \<Rightarrow> string \<Rightarrow> bool" where
  "openable w p \<longleftrightarrow> readable w p \<and> writable w p"

text \<open>The attributes of a \<^verbatim>\<open>JSONDatabaseBackend\<close> object. \<open>db\<close> is \<^verbatim>\<open>self._db\<close>;
  \<open>crypto_data\<close> is \<open>None\<close> while the attribute \<^verbatim>\<open>self.crypto_data\<close> has not been assigned
  (the constructor does not assign it).\<close>

record 'md store =
  db_file_name :: string
  default_value :: pyval
  loaded :: bool
  db :: pyval
  encryption :: bool
  crypto_data_file_name :: "string option"
  string_key :: "string option"
  encryption_text_encoding :: string
  crypto_data :: "'md option"

text \<open>A bound method of a built-in object: it takes the positional and the keyword
  arguments of the call and works on the heap only.\<close>

type_synonym pyargs = "pyval list \<times> (string \<times> pyval) list"

type_synonym pymethod = "pyargs \<Rightarrow> heap \<Rightarrow> (pyerr + pyval) \<times> heap"

text \<open>
  The collaborators the module imports: \<^verbatim>\<open>json\<close>, the string codecs, the module
  \<^verbatim>\<open>crypto\<close> and attribute lookup on built-in objects (\<^verbatim>\<open>getattr\<close>). None of them is defined in
  \<^verbatim>\<open>database.py\<close>; they are parameters of the model. \<open>make_new\<close> and \<open>encrypt\<close> may draw
  randomness, so they take and return the entropy state \<open>rnd\<close>. \<open>interop_load\<close> and
  \<open>interop_dump\<close> are \<^verbatim>\<open>HashBasedCryptoDataFileInteropProvider.load\<close> and \<^verbatim>\<open>.dump\<close>, as
  functions from and to the text of the file handle they are given.
\<close>

record 'md env =
  json_dumps :: "json \<Rightarrow> pyerr + string"
  json_loads :: "string \<Rightarrow> pyerr + json"
  str_encode :: "string \<Rightarrow> string \<Rightarrow> pyerr + string"
  bytes_decode :: "string \<Rightarrow> string \<Rightarrow> pyerr + string"
  make_new :: "string option \<Rightarrow> string \<Rightarrow> nat \<Rightarrow> (pyerr + 'md) \<times> nat"
  check_string_key :: "'md \<Rightarrow> string option \<Rightarrow> string \<Rightarrow> pyerr + unit"
  encrypt :: "'md \<Rightarrow> string \<Rightarrow> nat \<Rightarrow> (pyerr + string) \<times> nat"
  decrypt :: "'md \<Rightarrow> string \<Rightarrow> pyerr + string"
  interop_load :: "string \<Rightarrow> string option \<Rightarrow> string \<Rightarrow> pyerr + 'md"
  interop_dump :: "'md \<Rightarrow> pyerr + string"
  py_getattr :: "heap \<Rightarrow> pyval \<Rightarrow> string \<Rightarrow> pyerr + pymethod"

subsection \<open>Library behaviour on the heap\<close>

text \<open>
  \<^verbatim>\<open>copy.deepcopy\<close>: atoms are returned as they are; a container is copied into a fresh
  object, registered in the memo before its elements are copied, so shared and cyclic
  structure is copied once. Entering a container that is not in the memo costs one unit of
  fuel; running out is Python's \<^verbatim>\<open>RecursionError\<close>.
\<close>

type_synonym memo = "(nat \<times> nat) list"

fun deepcopy :: "nat \<Rightarrow> pyval \<Rightarrow> heap \<times> memo \<Rightarrow> (pyval \<times> heap \<times> memo) option"
  and deepcopy_list :: "nat \<Rightarrow> pyval list \<Rightarrow> heap \<times> memo \<Rightarrow> (pyval list \<times> heap \<times> memo) option"
where
  "deepcopy n PNone hm = Some (PNone, hm)"
| "deepcopy n (PBool b) hm = Some (PBool b, hm)"
| "deepcopy n (PInt i) hm = Some (PInt i, hm)"
| "deepcopy n (PStr t) hm = Some (PStr t, hm)"
| "deepcopy 0 (PRef a) (h, m) =
     (case map_of m a of Some y \<Rightarrow> Some (PRef y, h, m) | None \<Rightarrow> None)"
| "deepcopy (Suc n) (PRef a) (h, m) =
     (case map_of m a of
        Some y \<Rightarrow> Some (PRef y, h, m)
      | None \<Rightarrow>
          if a < length h then
            (case h ! a of
               PyList xs \<Rightarrow>
                 (case deepcopy_list n xs (h @ [PyList []], (a, length h) # m) of
                    None \<Rightarrow> None
                  | Some (ys, h', m') \<Rightarrow> Some (PRef (length h), h'[length h := PyList ys], m'))
             | PyDict kvs \<Rightarrow>
                 (case deepcopy_list n (map snd kvs) (h @ [PyDict []], (a, length h) # m) of
                    None \<Rightarrow> None
                  | Some (ys, h', m') \<Rightarrow>
                      Some (PRef (length h), h'[length h := PyDict (zip (map fst kvs) ys)], m')))
          else None)"
| "deepcopy_list n [] hm = Some ([], hm)"
| "deepcopy_list n (x # xs) hm =
     (case deepcopy n x hm of
        None \<Rightarrow> None
      | Some (y, hm') \<Rightarrow>
          (case deepcopy_list n xs hm' of
             None \<Rightarrow> None
           | Some (ys, hm'') \<Rightarrow> Some (y # ys, hm'')))"

text \<open>
  The tree a value denotes, as \<^verbatim>\<open>json.dumps\<close> walks it. With fuel \<open>length h\<close> the walk
  fails exactly on a cyclic (or dangling) structure, where Python raises
  \<^verbatim>\<open>ValueError: Circular reference detected\<close>.
\<close>

fun reify :: "nat \<Rightarrow> heap \<Rightarrow> pyval \<Rightarrow> json option"
  and reify_list :: "nat \<Rightarrow> heap \<Rightarrow> pyval list \<Rightarrow> json list option"
where
  "reify n h PNone = Some JNull"
| "reify n h (PBool b) = Some (JBool b)"
| "reify n h (PInt i) = Some (JInt i)"
| "reify n h (PStr t) = Some (JStr t)"
| "reify 0 h (PRef a) = None"
| "reify (Suc n) h (PRef a) =
     (if a < length h then
        (case h ! a of
           PyList xs \<Rightarrow> map_option JList (reify_list n h xs)
         | PyDict kvs \<Rightarrow>
             map_option (\<lambda>ts. JDict (zip (map fst kvs) ts)) (reify_list n h (map snd kvs)))
      else None)"
| "reify_list n h [] = Some []"
| "reify_list n h (x # xs) =
     (case reify n h x of
        None \<Rightarrow> None
      | Some t \<Rightarrow> map_option ((#) t) (reify_list n h xs))"

text \<open>The objects \<^verbatim>\<open>json.loads\<close> allocates for a parsed tree: every container is a new
  heap object.\<close>

fun build :: "json \<Rightarrow> heap \<Rightarrow> pyval \<times> heap"
  and build_list :: "json list \<Rightarrow> heap \<Rightarrow> pyval list \<times> heap"
  and build_items :: "(string \<times> json) list \<Rightarrow> heap \<Rightarrow> (string \<times> pyval) list \<times> heap"
where
  "build JNull h = (PNone, h)"
| "build (JBool b) h = (PBool b, h)"
| "build (JInt i) h = (PInt i, h)"
| "build (JStr t) h = (PStr t, h)"
| "build (JList ts) h = (case build_list ts h of (vs, h') \<Rightarrow> (PRef (length h'), h' @ [PyList vs]))"
| "build (JDict kts) h =
     (case build_items kts h of (kvs, h') \<Rightarrow> (PRef (length h'), h' @ [PyDict kvs]))"
| "build_list [] h = ([], h)"
| "build_list (t # ts) h =
     (case build t h of (v, h') \<Rightarrow> (case build_list ts h' of (vs, h'') \<Rightarrow> (v # vs, h'')))"
| "build_items [] h = ([], h)"
| "build_items (kt # kts) h =
     (case build (snd kt) h of (v, h') \<Rightarrow>
        (case build_items kts h' of (kvs, h'') \<Rightarrow> ((fst kt, v) # kvs, h'')))"

text \<open>\<^verbatim>\<open>json.dumps (obj)\<close> and \<^verbatim>\<open>json.loads (text)\<close> on the heap.\<close>

definition py_dumps :: "'md env \<Rightarrow> heap \<Rightarrow> pyval \<Rightarrow> pyerr + string" where
  "py_dumps E h v =
     (case reify (length h) h v of
        None \<Rightarrow> Inl (ValueError ''Circular reference detected'')
      | Some t \<Rightarrow> json_dumps E t)"

definition py_loads :: "'md env \<Rightarrow> string \<Rightarrow> heap \<Rightarrow> pyerr + pyval \<times> heap" where
  "py_loads E text h =
     (case json_loads E text of
        Inl e \<Rightarrow> Inl e
      | Inr t \<Rightarrow> Inr (build t h))"

subsection \<open>Files\<close>

definition path_exists :: "filesystem \<Rightarrow> string \<Rightarrow> bool" where
  "path_exists f p = (f p \<noteq> None)"

definition path_isfile :: "filesystem \<Rightarrow> string \<Rightarrow> bool" where
  "path_isfile f p = (case f p of Some (File c) \<Rightarrow> True | _ \<Rightarrow> False)"

text \<open>\<^verbatim>\<open>open (p, "r")\<close> or \<^verbatim>\<open>"rb"\<close> followed by reading the whole file.\<close>

definition read_file :: "string \<Rightarrow> 'md world \<Rightarrow> pyerr + string \<times> 'md world" where
  "read_file p w =
     (case fs w p of
        None \<Rightarrow> Inl (FileNotFoundError p)
      | Some Dir \<Rightarrow> Inl (IsADirectoryError p)
      | Some (File c) \<Rightarrow>
          if readable w p then Inr (c, w\<lparr>trace := trace w @ [ReadFile p]\<rparr>)
          else Inl (PermissionError p))"

text \<open>\<^verbatim>\<open>open (p, mode)\<close> for the modes \<^verbatim>\<open>w\<close>, \<^verbatim>\<open>w+\<close>, \<^verbatim>\<open>wb\<close>, \<^verbatim>\<open>wb+\<close>: each of them creates
  the file or truncates it. A mode with \<^verbatim>\<open>+\<close> opens for reading as well, so on a file that
  exists it needs the permission to read besides the permission to write. Where the path
  names nothing and no file can be created, the exception is \<^verbatim>\<open>FileNotFoundError\<close> for a
  missing directory and \<^verbatim>\<open>PermissionError\<close> otherwise.\<close>

definition open_write :: "string \<Rightarrow> string \<Rightarrow> 'md world \<Rightarrow> pyerr + 'md world" where
  "open_write p mode w =
     (case fs w p of
        Some Dir \<Rightarrow> Inl (IsADirectoryError p)
      | Some (File c) \<Rightarrow>
          if writable w p \<and> (CHR ''+'' \<in> set mode \<longrightarrow> readable w p)
          then Inr (w\<lparr>fs := (fs w)(p \<mapsto> File []), trace := trace w @ [OpenFile p mode]\<rparr>)
          else Inl (PermissionError p)
      | None \<Rightarrow>
          if writable w p
          then Inr (w\<lparr>fs := (fs w)(p \<mapsto> File []), trace := trace w @ [OpenFile p mode]\<rparr>)
          else if directory_missing w p then Inl (FileNotFoundError p)
          else Inl (PermissionError p))"

definition write_file :: "string \<Rightarrow> string \<Rightarrow> 'md world \<Rightarrow> 'md world" where
  "write_file p c w = w\<lparr>fs := (fs w)(p \<mapsto> File c), trace := trace w @ [WriteFile p c]\<rparr>"

text \<open>\<^verbatim>\<open>f"w{'+' if _new else ''}"\<close> and \<^verbatim>\<open>f"wb{'+' if _new else ''}"\<close>.\<close>

definition text_mode :: "bool \<Rightarrow> string" where
  "text_mode new = ''w'' @ (if new then ''+'' else '''')"

definition binary_mode :: "bool \<Rightarrow> string" where
  "binary_mode new = ''wb'' @ (if new then ''+'' else '''')"

section \<open>The store: \<^verbatim>\<open>JSONDatabaseBackend\<close>\<close>

text \<open>\<^verbatim>\<open>__init__\<close>: the keyword arguments are moved into the object; \<open>loaded\<close> starts
  false and \<^verbatim>\<open>_db\<close> starts as \<^verbatim>\<open>None\<close>.\<close>

definition init :: "string \<Rightarrow> pyval \<Rightarrow> bool \<Rightarrow> string option \<Rightarrow> string option \<Rightarrow> string \<Rightarrow> 'md store" where
  "init db_file_name' default' encryption' crypto_data_file_name' string_key' encoding' =
     \<lparr> db_file_name = db_file_name',
       default_value = default',
       loaded = False,
       db = PNone,
       encryption = encryption',
       crypto_data_file_name = crypto_data_file_name',
       string_key = string_key',
       encryption_text_encoding = encoding',
       crypto_data = None \<rparr>"

text \<open>The constructor with its defaults: \<^verbatim>\<open>default = None\<close>, \<^verbatim>\<open>encryption = False\<close>,
  \<^verbatim>\<open>crypto_data_file_name = None\<close>, \<^verbatim>\<open>string_key = None\<close>, encoding \<^verbatim>\<open>utf-8\<close>.\<close>

definition init_defaults :: "string \<Rightarrow> 'md store" where
  "init_defaults db_file_name' = init db_file_name' PNone False None None ''utf-8''"

text \<open>An operation returns the exception it raised, if any, and the object and the world as
  it left them: what a raising call has already assigned or written stays.\<close>

type_synonym 'md outcome = "pyerr option \<times> 'md store \<times> 'md world"

subsection \<open>\<^verbatim>\<open>save\<close>\<close>

text \<open>Lines 47 to 52: the \<^verbatim>\<open>try\<close> around \<^verbatim>\<open>self.crypto_data.check_string_key\<close>. The handler
  catches \<^verbatim>\<open>crypto.InvalidKeyError\<close> only; the result is \<^verbatim>\<open>string_key_has_changed\<close>.\<close>

definition key_rotation_check :: "'md env \<Rightarrow> 'md store \<Rightarrow> 'md world \<Rightarrow> (pyerr + bool) \<times> 'md world" where
  "key_rotation_check E s w =
     (case crypto_data s of
        None \<Rightarrow> (Inl (AttributeError ''crypto_data''), w)
      | Some md \<Rightarrow>
          (let w1 = w\<lparr>trace := trace w @ [CheckStringKey md (string_key s)]\<rparr> in
           (case check_string_key E md (string_key s) (encryption_text_encoding s) of
              Inr u \<Rightarrow> (Inr False, w1)
            | Inl e \<Rightarrow> if e = InvalidKeyError then (Inr True, w1) else (Inl e, w1))))"

text \<open>Lines 44 to 54.\<close>

definition save_crypto_data :: "'md env \<Rightarrow> bool \<Rightarrow> 'md store \<Rightarrow> 'md world \<Rightarrow> 'md outcome" where
  "save_crypto_data E new s w =
     (if encryption s then
        (case (if \<not> new then key_rotation_check E s w else (Inr False, w)) of
           (Inl e, w1) \<Rightarrow> (Some e, s, w1)
         | (Inr string_key_has_changed, w1) \<Rightarrow>
             if new \<or> string_key_has_changed then
               (let w2 = w1\<lparr>trace := trace w1 @ [MakeNew (string_key s)]\<rparr> in
                (case make_new E (string_key s) (encryption_text_encoding s) (rnd w2) of
                   (Inl e, r) \<Rightarrow> (Some e, s, w2\<lparr>rnd := r\<rparr>)
                 | (Inr md, r) \<Rightarrow> (None, s\<lparr>crypto_data := Some md\<rparr>, w2\<lparr>rnd := r\<rparr>)))
             else (None, s, w1))
      else (None, s, w))"

text \<open>Lines 56 and 57. When \<^verbatim>\<open>json.dump\<close> raises, the file stays as \<^verbatim>\<open>open\<close> left it
  (output written before the exception is not modelled).\<close>

definition save_plain :: "'md env \<Rightarrow> bool \<Rightarrow> 'md store \<Rightarrow> 'md world \<Rightarrow> 'md outcome" where
  "save_plain E new s w =
     (case open_write (db_file_name s) (text_mode new) w of
        Inl e \<Rightarrow> (Some e, s, w)
      | Inr w1 \<Rightarrow>
          (case py_dumps E (heap w1) (db s) of
             Inl e \<Rightarrow> (Some e, s, w1)
           | Inr text \<Rightarrow> (None, s, write_file (db_file_name s) text w1)))"

text \<open>Lines 61 to 64: the two files are written, the data file first.\<close>

definition save_write_files :: "'md env \<Rightarrow> bool \<Rightarrow> 'md \<Rightarrow> string \<Rightarrow> 'md store \<Rightarrow> 'md world \<Rightarrow> 'md outcome" where
  "save_write_files E new md encrypted_db_dump s w =
     (case open_write (db_file_name s) (binary_mode new) w of
        Inl e \<Rightarrow> (Some e, s, w)
      | Inr w1 \<Rightarrow>
          (let w2 = write_file (db_file_name s) encrypted_db_dump w1 in
           (case crypto_data_file_name s of
              None \<Rightarrow>
                (Some (TypeError ''expected str, bytes or os.PathLike object, not NoneType''), s, w2)
            | Some cf \<Rightarrow>
                (case open_write cf (text_mode new) w2 of
                   Inl e \<Rightarrow> (Some e, s, w2)
                 | Inr w3 \<Rightarrow>
                     (case interop_dump E md of
                        Inl e \<Rightarrow> (Some e, s, w3)
                      | Inr crypto_text \<Rightarrow> (None, s, write_file cf crypto_text w3))))))"

text \<open>Lines 59 to 64.\<close>

definition save_encrypted :: "'md env \<Rightarrow> bool \<Rightarrow> 'md store \<Rightarrow> 'md world \<Rightarrow> 'md outcome" where
  "save_encrypted E new s w =
     (case py_dumps E (heap w) (db s) of
        Inl e \<Rightarrow> (Some e, s, w)
      | Inr text \<Rightarrow>
          (case str_encode E (encryption_text_encoding s) text of
             Inl e \<Rightarrow> (Some e, s, w)
           | Inr binary_db_dump \<Rightarrow>
               (case crypto_data s of
                  None \<Rightarrow> (Some (AttributeError ''crypto_data''), s, w)
                | Some md \<Rightarrow>
                    (let w1 = w\<lparr>trace := trace w @ [Encrypt md binary_db_dump]\<rparr> in
                     (case encrypt E md binary_db_dump (rnd w1) of
                        (Inl e, r) \<Rightarrow> (Some e, s, w1\<lparr>rnd := r\<rparr>)
                      | (Inr encrypted_db_dump, r) \<Rightarrow>
                          save_write_files E new md encrypted_db_dump s (w1\<lparr>rnd := r\<rparr>))))))"

text \<open>\<^verbatim>\<open>save (self, _new = False)\<close>. Line 43 is
  \<^verbatim>\<open>assert self._db is not None, "The database needs to be loaded first!"\<close>
  (assertions enabled, as Python runs by default).\<close>

definition save :: "'md env \<Rightarrow> bool \<Rightarrow> 'md store \<Rightarrow> 'md world \<Rightarrow> 'md outcome" where
  "save E new s w =
     (if db s = PNone then
        (Some (AssertionError ''The database needs to be loaded first!''), s, w)
      else
        (case save_crypto_data E new s w of
           (Some e, s1, w1) \<Rightarrow> (Some e, s1, w1)
         | (None, s1, w1) \<Rightarrow>
             if \<not> encryption s1 then save_plain E new s1 w1
             else save_encrypted E new s1 w1))"

subsection \<open>\<^verbatim>\<open>load\<close>\<close>

text \<open>Lines 24 to 26: the data file does not exist and is to be created.\<close>

definition load_create :: "'md env \<Rightarrow> 'md store \<Rightarrow> 'md world \<Rightarrow> 'md outcome" where
  "load_create E s w =
     (case deepcopy (length (heap w)) (default_value s) (heap w, []) of
        None \<Rightarrow> (Some RecursionError, s, w)
      | Some (v, h', m) \<Rightarrow>
          save E True (s\<lparr>db := v, loaded := True\<rparr>) (w\<lparr>heap := h'\<rparr>))"

text \<open>Lines 31 and 32.\<close>

definition load_plain :: "'md env \<Rightarrow> 'md store \<Rightarrow> 'md world \<Rightarrow> 'md outcome" where
  "load_plain E s w =
     (case read_file (db_file_name s) w of
        Inl e \<Rightarrow> (Some e, s, w)
      | Inr (text, w1) \<Rightarrow>
          (case py_loads E text (heap w1) of
             Inl e \<Rightarrow> (Some e, s, w1)
           | Inr (v, h') \<Rightarrow> (None, s\<lparr>db := v\<rparr>, w1\<lparr>heap := h'\<rparr>)))"

text \<open>Lines 36 to 40: the data file is read, decrypted, decoded and parsed, and the store is
  saved again.\<close>

definition load_decrypt :: "'md env \<Rightarrow> 'md \<Rightarrow> 'md store \<Rightarrow> 'md world \<Rightarrow> 'md outcome" where
  "load_decrypt E md s w =
     (case read_file (db_file_name s) w of
        Inl e \<Rightarrow> (Some e, s, w)
      | Inr (encrypted_db_dump, w1) \<Rightarrow>
          (let w2 = w1\<lparr>trace := trace w1 @ [Decrypt md encrypted_db_dump]\<rparr> in
           (case decrypt E md encrypted_db_dump of
              Inl e \<Rightarrow> (Some e, s, w2)
            | Inr binary_db_dump \<Rightarrow>
                (case bytes_decode E (encryption_text_encoding s) binary_db_dump of
                   Inl e \<Rightarrow> (Some e, s, w2)
                 | Inr text \<Rightarrow>
                     (case py_loads E text (heap w2) of
                        Inl e \<Rightarrow> (Some e, s, w2)
                      | Inr (v, h') \<Rightarrow> save E False (s\<lparr>db := v\<rparr>) (w2\<lparr>heap := h'\<rparr>))))))"

text \<open>Lines 34 to 40.\<close>

definition load_encrypted :: "'md env \<Rightarrow> 'md store \<Rightarrow> 'md world \<Rightarrow> 'md outcome" where
  "load_encrypted E s w =
     (case crypto_data_file_name s of
        None \<Rightarrow>
          (Some (TypeError ''expected str, bytes or os.PathLike object, not NoneType''), s, w)
      | Some cf \<Rightarrow>
          (case read_file cf w of
             Inl e \<Rightarrow> (Some e, s, w)
           | Inr (crypto_text, w1) \<Rightarrow>
               (case interop_load E crypto_text (string_key s) (encryption_text_encoding s) of
                  Inl e \<Rightarrow> (Some e, s, w1)
                | Inr md \<Rightarrow> load_decrypt E md (s\<lparr>crypto_data := Some md\<rparr>) w1)))"

text \<open>\<^verbatim>\<open>load (self, create_if_nonexistent = True)\<close>. Line 41, \<^verbatim>\<open>self.loaded = True\<close>, is
  reached only when the branch before it has not raised.\<close>

definition load :: "'md env \<Rightarrow> bool \<Rightarrow> 'md store \<Rightarrow> 'md world \<Rightarrow> 'md outcome" where
  "load E create_if_nonexistent s w =
     (if \<not> path_exists (fs w) (db_file_name s) then
        (if \<not> create_if_nonexistent then
           (Some (Exception ''Database file doesn't exist''), s, w)
         else load_create E s w)
      else if \<not> path_isfile (fs w) (db_file_name s) then
        (Some (Exception ''Database file isn't a file''), s, w)
      else
        (case (if \<not> encryption s then load_plain E s w else load_encrypted E s w) of
           (Some e, s1, w1) \<Rightarrow> (Some e, s1, w1)
         | (None, s1, w1) \<Rightarrow> (None, s1\<lparr>loaded := True\<rparr>, w1)))"

subsection \<open>The proxied mapping operations\<close>

text \<open>What Python raises when a call passes a keyword argument with the name of a parameter
  that is already bound positionally:
  \<^verbatim>\<open>TypeError: <lambda>() got multiple values for argument 'self'\<close>.\<close>

definition multiple_values_for_self :: pyerr where
  "multiple_values_for_self =
     TypeError (''<lambda>() got multiple values for argument '' @ [CHR 0x27] @ ''self'' @ [CHR 0x27])"

text \<open>Line 72:
  \<^verbatim>\<open>lambda function_name: lambda self, *args, **kwargs: getattr (self._db, function_name) (*args, **kwargs)\<close>.
  The store is bound to the parameter \<^verbatim>\<open>self\<close> by the method call, so a keyword argument
  named \<^verbatim>\<open>self\<close> cannot be bound to \<^verbatim>\<open>kwargs\<close>: the call raises before the body runs. Every
  other keyword goes to \<^verbatim>\<open>kwargs\<close> and on to the method.\<close>

definition proxy_function_creator ::
  "'md env \<Rightarrow> string \<Rightarrow> 'md store \<Rightarrow> pyargs \<Rightarrow> 'md world \<Rightarrow> (pyerr + pyval) \<times> 'md store \<times> 'md world" where
  "proxy_function_creator E function_name self args w =
     (if ''self'' \<in> set (map fst (snd args)) then (Inl multiple_values_for_self, self, w)
      else
        (case py_getattr E (heap w) (db self) function_name of
           Inl e \<Rightarrow> (Inl e, self, w)
         | Inr bound_method \<Rightarrow>
             (case bound_method args (heap w) of (r, h') \<Rightarrow> (r, self, w\<lparr>heap := h'\<rparr>))))"

text \<open>Lines 74 and 75: the loop that sets one proxy per name on the class.\<close>

definition proxied_names :: "string list" where
  "proxied_names =
     [''__contains__'', ''__getitem__'', ''__setitem__'', ''__delitem__'', ''clear'', ''copy'',
      ''fromkeys'', ''get'', ''items'', ''keys'', ''pop'', ''popitem'', ''setdefault'', ''update'',
      ''values'']"

definition class_attrs ::
  "'md env \<Rightarrow> string \<Rightarrow> ('md store \<Rightarrow> pyargs \<Rightarrow> 'md world \<Rightarrow> (pyerr + pyval) \<times> 'md store \<times> 'md world) option" where
  "class_attrs E =
     fold (\<lambda>func_name attrs. attrs(func_name \<mapsto> proxy_function_creator E func_name))
       proxied_names Map.empty"

text \<open>A call \<^verbatim>\<open>store.name (*args, **kwargs)\<close> of an attribute the loop has set.\<close>

definition call_proxy ::
  "'md env \<Rightarrow> string \<Rightarrow> 'md store \<Rightarrow> pyargs \<Rightarrow> 'md world \<Rightarrow> (pyerr + pyval) \<times> 'md store \<times> 'md world" where
  "call_proxy E name self args w =
     (case class_attrs E name of
        None \<Rightarrow> (Inl (AttributeError name), self, w)
      | Some f \<Rightarrow> f self args w)"

section \<open>Notions the properties are stated with\<close>

text \<open>The same operation applied to a standalone mapping \<open>d\<close>:
  \<^verbatim>\<open>getattr (d, name) (*args, **kwargs)\<close>, with no store around it.\<close>

definition mapping_call :: "'md env \<Rightarrow> string \<Rightarrow> pyval \<Rightarrow> pyargs \<Rightarrow> heap \<Rightarrow> (pyerr + pyval) \<times> heap" where
  "mapping_call E name d args h =
     (case py_getattr E h d name of
        Inl e \<Rightarrow> (Inl e, h)
      | Inr bound_method \<Rightarrow> bound_method args h)"

text \<open>A heap whose first \<open>n\<close> objects refer to each other only (as every heap of a running
  program does, with \<open>n\<close> its length), the containers of it that a memo has not seen yet, and
  what a copy leaves of such a heap: it stays closed, objects below \<open>n\<close> are untouched and the
  memo has only grown.\<close>

fun obj_vals :: "pyobj \<Rightarrow> pyval list" where
  "obj_vals (PyList xs) = xs"
| "obj_vals (PyDict kvs) = map snd kvs"

definition in_heap :: "nat \<Rightarrow> pyval \<Rightarrow> bool" where
  "in_heap n v = (case v of PRef a \<Rightarrow> a < n | _ \<Rightarrow> True)"

definition closed_below :: "nat \<Rightarrow> heap \<Rightarrow> bool" where
  "closed_below n h = (n \<le> length h \<and> (\<forall>a < n. \<forall>x \<in> set (obj_vals (h ! a)). in_heap n x))"

definition unmemoized :: "nat \<Rightarrow> memo \<Rightarrow> nat set" where
  "unmemoized n m = {a. a < n \<and> map_of m a = None}"

definition copies :: "nat \<Rightarrow> heap \<Rightarrow> memo \<Rightarrow> (heap \<times> memo) \<Rightarrow> bool" where
  "copies N h m hm' = (case hm' of (h', m') \<Rightarrow>
     closed_below N h' \<and> unmemoized N m' \<subseteq> unmemoized N m \<and> (\<forall>a < N. h' ! a = h ! a))"

definition not_loaded_error :: pyerr where
  "not_loaded_error = AssertionError ''The database needs to be loaded first!''"

text \<open>The exceptions that the collaborators called by \<^verbatim>\<open>save\<close> can raise.\<close>

definition save_collaborator_errors :: "'md env \<Rightarrow> pyerr set" where
  "save_collaborator_errors E =
     {e. (\<exists>t. json_dumps E t = Inl e) \<or>
         (\<exists>encoding t. str_encode E encoding t = Inl e) \<or>
         (\<exists>k encoding r. fst (make_new E k encoding r) = Inl e) \<or>
         (\<exists>md k encoding. check_string_key E md k encoding = Inl e) \<or>
         (\<exists>md p r. fst (encrypt E md p r) = Inl e) \<or>
         (\<exists>md. interop_dump E md = Inl e)}"


text \<open>The events of the key-rotation check and of the regeneration of the metadata.\<close>

fun is_key_event :: "'md event \<Rightarrow> bool" where
  "is_key_event (CheckStringKey md k) = True"
| "is_key_event (MakeNew k) = True"
| "is_key_event e = False"

text \<open>
  Modelled from the spec: the module \<^verbatim>\<open>crypto\<close> (\<^verbatim>\<open>crypto.py\<close>) is imported by
  \<^verbatim>\<open>database.py\<close> and is not among the sources. This is the Crypto Provider contract of the
  specification's section on external interfaces, for one text encoding: metadata can be made
  from any secret and is bound to it (\<open>key_of\<close>); verification succeeds for the bound secret
  and signals \<open>InvalidKeyError\<close> for any other; decryption inverts encryption under the same
  metadata; the metadata file format reads back what was dumped, given the bound secret, and
  what it reads is bound to the secret it was given; with another secret either reading the
  metadata fails or what is read does not decrypt the ciphertext.
\<close>

definition crypto_contract :: "'md env \<Rightarrow> ('md \<Rightarrow> string) \<Rightarrow> string \<Rightarrow> bool" where
  "crypto_contract E key_of encoding \<longleftrightarrow>
     (\<forall>k r. \<exists>md r'. make_new E (Some k) encoding r = (Inr md, r') \<and> key_of md = k) \<and>
     (\<forall>md k. check_string_key E md (Some k) encoding =
        (if key_of md = k then Inr () else Inl InvalidKeyError)) \<and>
     (\<forall>md p r. \<exists>c r'. encrypt E md p r = (Inr c, r') \<and> decrypt E md c = Inr p) \<and>
     (\<forall>md. \<exists>text. interop_dump E md = Inr text \<and>
        interop_load E text (Some (key_of md)) encoding = Inr md) \<and>
     (\<forall>text k md. interop_load E text (Some k) encoding = Inr md \<longrightarrow> key_of md = k) \<and>
     (\<forall>md text k md'. interop_dump E md = Inr text \<longrightarrow> k \<noteq> key_of md \<longrightarrow>
        interop_load E text (Some k) encoding = Inr md' \<longrightarrow>
        (\<forall>p r c r'. encrypt E md p r = (Inr c, r') \<longrightarrow> (\<exists>e. decrypt E md' c = Inl e)))"

section \<open>A small instance of the collaborators\<close>

text \<open>
  The properties below hold for every instance of the collaborators. To run the model on
  concrete inputs, this instance serialises the empty containers and \<^verbatim>\<open>None\<close> only, knows
  the encoding \<^verbatim>\<open>utf-8\<close> only, uses the secret itself as metadata and reverses the plaintext
  as encryption; its objects have five dict methods (\<^verbatim>\<open>update\<close> with keyword arguments
  only).
\<close>

definition toy_dumps :: "json \<Rightarrow> pyerr + string" where
  "toy_dumps t =
     (if t = JDict [] then Inr ''{}''
      else if t = JList [] then Inr ''[]''
      else if t = JNull then Inr ''null''
      else Inl (TypeError ''Object is not JSON serializable''))"

definition toy_loads :: "string \<Rightarrow> pyerr + json" where
  "toy_loads text =
     (if text = ''{}'' then Inr (JDict [])
      else if text = ''[]'' then Inr (JList [])
      else if text = ''null'' then Inr JNull
      else Inl (LibraryError ''JSONDecodeError''))"

definition toy_codec :: "string \<Rightarrow> string \<Rightarrow> pyerr + string" where
  "toy_codec encoding text =
     (if encoding = ''utf-8'' then Inr text else Inl (LibraryError ''LookupError''))"

definition toy_make_new :: "string option \<Rightarrow> string \<Rightarrow> nat \<Rightarrow> (pyerr + string) \<times> nat" where
  "toy_make_new key encoding r =
     (case key of
        None \<Rightarrow> (Inl (AttributeError ''encode''), r)
      | Some k \<Rightarrow> (Inr k, Suc r))"

definition toy_check :: "string \<Rightarrow> string option \<Rightarrow> string \<Rightarrow> pyerr + unit" where
  "toy_check md key encoding = (if key = Some md then Inr () else Inl InvalidKeyError)"

definition toy_encrypt :: "string \<Rightarrow> string \<Rightarrow> nat \<Rightarrow> (pyerr + string) \<times> nat" where
  "toy_encrypt md plain r = (Inr (rev plain), r)"

definition toy_decrypt :: "string \<Rightarrow> string \<Rightarrow> pyerr + string" where
  "toy_decrypt md cipher = Inr (rev cipher)"

definition toy_interop_load :: "string \<Rightarrow> string option \<Rightarrow> string \<Rightarrow> pyerr + string" where
  "toy_interop_load text key encoding =
     (if key = Some text then Inr text else Inl InvalidKeyError)"

definition dict_setitem :: "string \<times> pyval \<Rightarrow> (string \<times> pyval) list \<Rightarrow> (string \<times> pyval) list" where
  "dict_setitem item kvs =
     (if map_of kvs (fst item) = None then kvs @ [item]
      else map (\<lambda>kv. if fst kv = fst item then item else kv) kvs)"

definition toy_dict_call :: "string \<Rightarrow> nat \<Rightarrow> pyargs \<Rightarrow> heap \<Rightarrow> (pyerr + pyval) \<times> heap" where
  "toy_dict_call name a args h =
     (case (h ! a, args) of
        (PyDict kvs, [PStr k], []) \<Rightarrow>
          (if name = ''__contains__'' then (Inr (PBool (map_of kvs k \<noteq> None)), h)
           else if name = ''__getitem__'' then
             (case map_of kvs k of
                None \<Rightarrow> (Inl (LibraryError ''KeyError''), h)
              | Some v \<Rightarrow> (Inr v, h))
           else (Inl (TypeError name), h))
      | (PyDict kvs, [PStr k, v], []) \<Rightarrow>
          (if name = ''__setitem__'' then (Inr PNone, h[a := PyDict (dict_setitem (k, v) kvs)])
           else (Inl (TypeError name), h))
      | (PyDict kvs, [], keywords) \<Rightarrow>
          (if name = ''clear'' \<and> keywords = [] then (Inr PNone, h[a := PyDict []])
           else if name = ''update'' then (Inr PNone, h[a := PyDict (fold dict_setitem keywords kvs)])
           else (Inl (TypeError name), h))
      | _ \<Rightarrow> (Inl (TypeError name), h))"

definition toy_getattr :: "heap \<Rightarrow> pyval \<Rightarrow> string \<Rightarrow> pyerr + pymethod" where
  "toy_getattr h v name =
     (case v of
        PRef a \<Rightarrow>
          (if a < length h \<and> (\<exists>kvs. h ! a = PyDict kvs) \<and>
              name \<in> {''__contains__'', ''__getitem__'', ''__setitem__'', ''clear'', ''update''}
           then Inr (toy_dict_call name a)
           else Inl (AttributeError name))
      | _ \<Rightarrow> Inl (AttributeError name))"

definition toy_env :: "string env" where
  "toy_env =
     \<lparr> json_dumps = toy_dumps, json_loads = toy_loads,
       str_encode = toy_codec, bytes_decode = toy_codec,
       make_new = toy_make_new, check_string_key = toy_check,
       encrypt = toy_encrypt, decrypt = toy_decrypt,
       interop_load = toy_interop_load, interop_dump = Inr,
       py_getattr = toy_getattr \<rparr>"

text \<open>A world with no objects and no files, and one in which the caller holds an empty dict
  at address 0.\<close>

definition empty_world :: "string world" where
  "empty_world = \<lparr> heap = [], fs = Map.empty, readable = (\<lambda>p. True), writable = (\<lambda>p. True),
       directory_missing = (\<lambda>p. False), rnd = 0,
       trace = [] \<rparr>"

definition dict_world :: "string world" where
  "dict_world = \<lparr> heap = [PyDict []], fs = Map.empty, readable = (\<lambda>p. True), writable = (\<lambda>p. True),
       directory_missing = (\<lambda>p. False), rnd = 0,
       trace = [] \<rparr>"

text \<open>A plain store and an encrypted store, both with the default \<^verbatim>\<open>{}\<close> at address 0.\<close>

definition plain_store :: "string store" where
  "plain_store = init ''db.json'' (PRef 0) False None None ''utf-8''"

definition secret_store :: "string \<Rightarrow> string store" where
  "secret_store key = init ''db.bin'' (PRef 0) True (Some ''db.cryptodata'') (Some key) ''utf-8''"

text \<open>An encrypted store that holds the metadata of the secret \<^verbatim>\<open>old\<close> and a mapping, and
  whose secret has been reassigned to \<^verbatim>\<open>new\<close>.\<close>

definition rotated_store :: "string store" where
  "rotated_store = (secret_store ''new'')\<lparr>crypto_data := Some ''old'', db := PRef 0\<rparr>"

text \<open>The world after \<^verbatim>\<open>save\<close> of that store.\<close>

definition rotated_world :: "string world" where
  "rotated_world =
     \<lparr> heap = [PyDict []],
       fs = [''db.bin'' \<mapsto> File ''}{'', ''db.cryptodata'' \<mapsto> File ''new''],
       readable = (\<lambda>p. True), writable = (\<lambda>p. True),
       directory_missing = (\<lambda>p. False),
       rnd = 1,
       trace = [CheckStringKey ''old'' (Some ''new''), MakeNew (Some ''new''),
                Encrypt ''new'' ''{}'',
                OpenFile ''db.bin'' ''wb'', WriteFile ''db.bin'' ''}{'',
                OpenFile ''db.cryptodata'' ''w'', WriteFile ''db.cryptodata'' ''new''] \<rparr>"

text \<open>An encrypted store that holds a mapping and the metadata of its secret.\<close>

definition checked_store :: "string store" where
  "checked_store = (secret_store ''k'')\<lparr>crypto_data := Some ''k'', db := PRef 0\<rparr>"

text \<open>The instance with a verification primitive that fails for a reason of its own.\<close>

definition failing_env :: "string env" where
  "failing_env = toy_env\<lparr>check_string_key := \<lambda>md k encoding. Inl (LibraryError ''OSError'')\<rparr>"

text \<open>The store and the world after \<^verbatim>\<open>load\<close> has created the encrypted store with the
  secret \<^verbatim>\<open>old\<close>.\<close>

definition created_store :: "string store" where
  "created_store =
     (secret_store ''old'')\<lparr>db := PRef 1, loaded := True, crypto_data := Some ''old''\<rparr>"

definition created_world :: "string world" where
  "created_world =
     \<lparr> heap = [PyDict [], PyDict []],
       fs = [''db.bin'' \<mapsto> File ''}{'', ''db.cryptodata'' \<mapsto> File ''old''],
       readable = (\<lambda>p. True), writable = (\<lambda>p. True),
       directory_missing = (\<lambda>p. False),
       rnd = 1,
       trace = [MakeNew (Some ''old''), Encrypt ''old'' ''{}'',
                OpenFile ''db.bin'' ''wb+'', WriteFile ''db.bin'' ''}{'',
                OpenFile ''db.cryptodata'' ''w+'', WriteFile ''db.cryptodata'' ''old''] \<rparr>"



text \<open>A loaded plain store whose mapping is the empty dict at address 0.\<close>

definition mapping_store :: "string store" where
  "mapping_store = plain_store\<lparr>db := PRef 0, loaded := True\<rparr>"

section \<open>Properties\<close>

subsection \<open>Auxiliary facts\<close>

lemma toy_env_sel [simp]:
  "json_dumps toy_env = toy_dumps" "json_loads toy_env = toy_loads"
  "str_encode toy_env = toy_codec" "bytes_decode toy_env = toy_codec"
  "make_new toy_env = toy_make_new" "check_string_key toy_env = toy_check"
  "encrypt toy_env = toy_encrypt" "decrypt toy_env = toy_decrypt"
  "interop_load toy_env = toy_interop_load" "interop_dump toy_env = Inr"
  "py_getattr toy_env = toy_getattr"
  by (simp_all add: toy_env_def)

lemma plus_in_mode [simp]:
  "CHR ''+'' \<in> set (text_mode new) \<longleftrightarrow> new"
  "CHR ''+'' \<in> set (binary_mode new) \<longleftrightarrow> new"
  by (simp_all add: text_mode_def binary_mode_def)

lemma openable_updates [simp]:
  "openable (w\<lparr>trace := t\<rparr>) = openable w" "openable (w\<lparr>heap := h\<rparr>) = openable w"
  "openable (w\<lparr>rnd := r\<rparr>) = openable w" "openable (w\<lparr>fs := f\<rparr>) = openable w"
  by (simp_all add: openable_def fun_eq_iff)

lemma openableD: "openable w p \<Longrightarrow> readable w p \<and> writable w p"
  by (simp add: openable_def)

text \<open>More fuel and a larger heap do not change the tree of a value; the objects that
  \<^verbatim>\<open>json.loads\<close> allocates for a tree denote that tree.\<close>

lemma reify_list_lift:
  assumes "\<And>v t. reify n h v = Some t \<Longrightarrow> reify m h' v = Some t"
  shows "reify_list n h xs = Some ts \<Longrightarrow> reify_list m h' xs = Some ts"
proof (induction xs arbitrary: ts)
  case Nil
  then show ?case by simp
next
  case (Cons x xs)
  then show ?case using assms by (auto split: option.splits)
qed

lemma reify_extend:
  "reify n h v = Some t \<Longrightarrow> n \<le> m \<Longrightarrow> reify m (h @ ext) v = Some t"
proof (induction n arbitrary: m v t)
  case 0
  then show ?case by (cases v) auto
next
  case (Suc n)
  show ?case
  proof (cases v)
    case (PRef a)
    from Suc.prems(2) obtain m' where m: "m = Suc m'" and le: "n \<le> m'"
      by (cases m) auto
    from Suc.prems(1) PRef have a: "a < length h"
      by (auto split: if_splits)
    have lift: "\<And>xs ts. reify_list n h xs = Some ts \<Longrightarrow> reify_list m' (h @ ext) xs = Some ts"
      using reify_list_lift [of n h m' "h @ ext"] Suc.IH [OF _ le] by blast
    show ?thesis
      using Suc.prems(1) PRef a m lift
      by (auto simp: nth_append split: pyobj.splits)
  qed (use Suc.prems in auto)
qed

lemma reify_list_extend:
  "reify_list n h xs = Some ts \<Longrightarrow> n \<le> m \<Longrightarrow> reify_list m (h @ ext) xs = Some ts"
  using reify_list_lift [of n h m "h @ ext" xs ts] reify_extend [of n h _ _ m ext] by blast

lemma build_reify_ext:
  "build t h = (v, h') \<Longrightarrow> \<exists>ext. h' = h @ ext \<and> reify (length ext) h' v = Some t"
  "build_list ts h = (vs, h') \<Longrightarrow> \<exists>ext. h' = h @ ext \<and> reify_list (length ext) h' vs = Some ts"
  "build_items kts h = (kvs, h') \<Longrightarrow>
     \<exists>ext. h' = h @ ext \<and> map fst kvs = map fst kts \<and>
           reify_list (length ext) h' (map snd kvs) = Some (map snd kts)"
proof (induction t h and ts h and kts h arbitrary: v h' and vs h' and kvs h'
       rule: build_build_list_build_items.induct)
  case (5 ts h)
  obtain vs h1 where b: "build_list ts h = (vs, h1)" by (cases "build_list ts h")
  from 5(1) [OF b] obtain ext where e: "h1 = h @ ext" "reify_list (length ext) h1 vs = Some ts"
    by blast
  from 5(2) b have v: "v = PRef (length h1)" "h' = h1 @ [PyList vs]" by auto
  have "reify_list (length ext) (h1 @ [PyList vs]) vs = Some ts"
    using reify_list_extend [OF e(2)] by simp
  then have "reify (length (ext @ [PyList vs])) h' v = Some (JList ts)"
    using v by simp
  then show ?case using e(1) v(2) by (metis append.assoc)
next
  case (6 kts h)
  obtain kvs h1 where b: "build_items kts h = (kvs, h1)" by (cases "build_items kts h")
  from 6(1) [OF b] obtain ext where e: "h1 = h @ ext" "map fst kvs = map fst kts"
      "reify_list (length ext) h1 (map snd kvs) = Some (map snd kts)"
    by blast
  from 6(2) b have v: "v = PRef (length h1)" "h' = h1 @ [PyDict kvs]" by auto
  have "reify_list (length ext) (h1 @ [PyDict kvs]) (map snd kvs) = Some (map snd kts)"
    using reify_list_extend [OF e(3)] by simp
  then have "reify (length (ext @ [PyDict kvs])) h' v = Some (JDict kts)"
    using v e(2) by (simp add: zip_map_fst_snd)
  then show ?case using e(1) v(2) by (metis append.assoc)
next
  case (8 t ts h)
  obtain v1 h1 where b1: "build t h = (v1, h1)" by (cases "build t h")
  obtain vs1 h2 where b2: "build_list ts h1 = (vs1, h2)" by (cases "build_list ts h1")
  from 8(1) [OF b1] obtain e1 where e1: "h1 = h @ e1" "reify (length e1) h1 v1 = Some t"
    by blast
  from 8(2) [OF b1 [symmetric] b2] obtain e2 where e2: "h2 = h1 @ e2"
      "reify_list (length e2) h2 vs1 = Some ts"
    by blast
  from 8(3) b1 b2 have r: "vs = v1 # vs1" "h' = h2" by auto
  have "reify (length (e1 @ e2)) h2 v1 = Some t"
    using reify_extend [OF e1(2), of "length (e1 @ e2)" e2] e2(1) by simp
  moreover have "reify_list (length (e1 @ e2)) h2 vs1 = Some ts"
    using reify_list_lift [of "length e2" h2 "length (e1 @ e2)" h2 vs1 ts]
      reify_extend [of "length e2" h2 _ _ "length (e1 @ e2)" "[]"] e2(2) by simp
  ultimately have "reify_list (length (e1 @ e2)) h' vs = Some (t # ts)"
    using r by simp
  then show ?case using e1(1) e2(1) r(2) by (metis append.assoc)
next
  case (10 kt kts h)
  obtain v1 h1 where b1: "build (snd kt) h = (v1, h1)" by (cases "build (snd kt) h")
  obtain kvs1 h2 where b2: "build_items kts h1 = (kvs1, h2)" by (cases "build_items kts h1")
  from 10(1) [OF b1] obtain e1 where e1: "h1 = h @ e1" "reify (length e1) h1 v1 = Some (snd kt)"
    by blast
  from 10(2) [OF b1 [symmetric] b2] obtain e2 where e2: "h2 = h1 @ e2"
      "map fst kvs1 = map fst kts"
      "reify_list (length e2) h2 (map snd kvs1) = Some (map snd kts)"
    by blast
  from 10(3) b1 b2 have r: "kvs = (fst kt, v1) # kvs1" "h' = h2" by auto
  have "reify (length (e1 @ e2)) h2 v1 = Some (snd kt)"
    using reify_extend [OF e1(2), of "length (e1 @ e2)" e2] e2(1) by simp
  moreover have "reify_list (length (e1 @ e2)) h2 (map snd kvs1) = Some (map snd kts)"
    using reify_list_lift [of "length e2" h2 "length (e1 @ e2)" h2 "map snd kvs1" "map snd kts"]
      reify_extend [of "length e2" h2 _ _ "length (e1 @ e2)" "[]"] e2(3) by simp
  ultimately have "reify_list (length (e1 @ e2)) h' (map snd kvs) = Some (map snd (kt # kts))"
    using r by simp
  then show ?case using e1(1) e2(1,2) r by (metis append.assoc list.simps(9) fst_conv)
qed auto

lemma build_reify:
  assumes "build t h = (v, h')"
  shows "reify (length h') h' v = Some t"
proof -
  from build_reify_ext(1) [OF assms] obtain ext where e: "h' = h @ ext"
      "reify (length ext) h' v = Some t"
    by blast
  show ?thesis
    using reify_extend [OF e(2), of "length h'" "[]"] e(1) by simp
qed

text \<open>\<^verbatim>\<open>copy.deepcopy\<close> with fuel \<open>length h\<close> returns on every closed heap: the fuel in
  \<open>load_create\<close> never runs out.\<close>

lemma unmemoized_finite: "finite (unmemoized N m)"
  by (simp add: unmemoized_def)

lemma deepcopy_list_total:
  assumes P: "\<And>v h m. closed_below N h \<Longrightarrow> in_heap N v \<Longrightarrow> card (unmemoized N m) \<le> n \<Longrightarrow>
      \<exists>v' h' m'. deepcopy n v (h, m) = Some (v', h', m') \<and> copies N h m (h', m')"
  shows "closed_below N h \<Longrightarrow> \<forall>x \<in> set xs. in_heap N x \<Longrightarrow> card (unmemoized N m) \<le> n \<Longrightarrow>
      \<exists>ys h' m'. deepcopy_list n xs (h, m) = Some (ys, h', m') \<and> copies N h m (h', m')"
proof (induction xs arbitrary: h m)
  case Nil
  then show ?case by (simp add: copies_def)
next
  case (Cons x xs)
  from P [OF Cons.prems(1) _ Cons.prems(3), of x] Cons.prems(2)
  obtain v1 h1 m1 where d: "deepcopy n x (h, m) = Some (v1, h1, m1)" "copies N h m (h1, m1)"
    by auto
  from d(2) have c1: "closed_below N h1" "unmemoized N m1 \<subseteq> unmemoized N m"
      "\<forall>a < N. h1 ! a = h ! a"
    by (simp_all add: copies_def)
  have "card (unmemoized N m1) \<le> n"
    using card_mono [OF unmemoized_finite c1(2)] Cons.prems(3) by simp
  from Cons.IH [OF c1(1) _ this] Cons.prems(2)
  obtain ys h2 m2 where l: "deepcopy_list n xs (h1, m1) = Some (ys, h2, m2)"
      "copies N h1 m1 (h2, m2)"
    by auto
  from l(2) c1 have "copies N h m (h2, m2)"
    by (auto simp: copies_def)
  with d(1) l(1) show ?case by simp
qed


lemma closed_below_alloc: "closed_below N h \<Longrightarrow> closed_below N (h @ [obj])"
  by (auto simp: closed_below_def nth_append)

lemma closed_below_update:
  "closed_below N h \<Longrightarrow> N \<le> k \<Longrightarrow> closed_below N (h[k := obj])"
  by (auto simp: closed_below_def)

lemma unmemoized_add:
  "a \<in> unmemoized N m \<Longrightarrow> card (unmemoized N ((a, y) # m)) < card (unmemoized N m)"
proof -
  assume a: "a \<in> unmemoized N m"
  have "unmemoized N ((a, y) # m) \<subset> unmemoized N m"
    using a by (auto simp: unmemoized_def)
  then show ?thesis by (rule psubset_card_mono [OF unmemoized_finite])
qed

lemma deepcopy_total:
  "closed_below N h \<Longrightarrow> in_heap N v \<Longrightarrow> card (unmemoized N m) \<le> n \<Longrightarrow>
     \<exists>v' h' m'. deepcopy n v (h, m) = Some (v', h', m') \<and> copies N h m (h', m')"
proof (induction n arbitrary: v h m)
  case 0
  show ?case
  proof (cases v)
    case (PRef a)
    with "0.prems"(2) have "a < N" by (simp add: in_heap_def)
    moreover from "0.prems"(3) have "unmemoized N m = {}"
      using unmemoized_finite [of N m] by simp
    ultimately obtain y where "map_of m a = Some y"
      by (auto simp: unmemoized_def)
    with PRef "0.prems"(1) show ?thesis by (simp add: copies_def)
  qed (use "0.prems"(1) in \<open>simp_all add: copies_def\<close>)
next
  case (Suc n)
  show ?case
  proof (cases v)
    case (PRef a)
    with Suc.prems(2) have aN: "a < N" by (simp add: in_heap_def)
    show ?thesis
    proof (cases "map_of m a")
      case (Some y)
      with PRef Suc.prems(1) show ?thesis by (simp add: copies_def)
    next
      case None
      with aN have un: "a \<in> unmemoized N m" by (simp add: unmemoized_def)
      from Suc.prems(1) aN have al: "a < length h" by (simp add: closed_below_def)
      let ?m0 = "(a, length h) # m"
      have card0: "card (unmemoized N ?m0) \<le> n"
        using unmemoized_add [OF un, of "length h"] Suc.prems(3) by simp
      have sub0: "unmemoized N ?m0 \<subseteq> unmemoized N m"
        by (auto simp: unmemoized_def)
      have vals: "\<forall>x \<in> set (obj_vals (h ! a)). in_heap N x"
        using Suc.prems(1) aN by (simp add: closed_below_def)
      have step: "\<exists>ys h' m'. deepcopy_list n (obj_vals (h ! a)) (h @ [e], ?m0) = Some (ys, h', m') \<and>
          copies N (h @ [e]) ?m0 (h', m')" for e
        by (rule deepcopy_list_total [OF Suc.IH closed_below_alloc [OF Suc.prems(1)] vals card0])
      have Nh: "N \<le> length h" using Suc.prems(1) by (simp add: closed_below_def)
      have fin: "copies N h m (h'[length h := obj], m')"
        if "copies N (h @ [e]) ?m0 (h', m')" for e h' m' obj
        using that sub0 Nh closed_below_update [of N h' "length h" obj]
        by (auto simp: copies_def nth_append)
      show ?thesis
      proof (cases "h ! a")
        case (PyList xs)
        from step [of "PyList []"] PyList obtain ys h' m' where
          l: "deepcopy_list n xs (h @ [PyList []], ?m0) = Some (ys, h', m')"
            "copies N (h @ [PyList []]) ?m0 (h', m')"
          by auto
        from fin [OF l(2)] l(1) PRef None al PyList show ?thesis by simp
      next
        case (PyDict kvs)
        from step [of "PyDict []"] PyDict obtain ys h' m' where
          l: "deepcopy_list n (map snd kvs) (h @ [PyDict []], ?m0) = Some (ys, h', m')"
            "copies N (h @ [PyDict []]) ?m0 (h', m')"
          by auto
        from fin [OF l(2)] l(1) PRef None al PyDict show ?thesis by simp
      qed
    qed
  qed (use Suc.prems(1) in \<open>simp_all add: copies_def\<close>)
qed

lemma deepcopy_returns:
  assumes "closed_below (length h) h" and "in_heap (length h) v"
  shows "deepcopy (length h) v (h, []) \<noteq> None"
proof -
  have "card (unmemoized (length h) []) \<le> length h"
    using card_mono [of "{..<length h}" "unmemoized (length h) []"]
    by (auto simp: unmemoized_def)
  from deepcopy_total [OF assms this] show ?thesis by auto
qed

text \<open>Unfolding the model and the small instance on concrete inputs.\<close>

lemmas toy_defs = toy_dumps_def toy_loads_def toy_codec_def toy_make_new_def toy_check_def
  toy_encrypt_def toy_decrypt_def toy_interop_load_def

lemmas save_defs = save_def save_crypto_data_def key_rotation_check_def save_plain_def
  save_encrypted_def save_write_files_def open_write_def write_file_def text_mode_def
  binary_mode_def py_dumps_def

lemma rotated_save:
  "save toy_env False rotated_store dict_world =
     (None, rotated_store\<lparr>crypto_data := Some ''new''\<rparr>, rotated_world)"
  by (simp add: rotated_store_def rotated_world_def secret_store_def init_def dict_world_def
      save_defs toy_defs)

text \<open>The plain write and the plain read when nothing fails.\<close>

lemma save_plain_succeeds:
  assumes "\<not> encryption s" "db s \<noteq> PNone"
    and "reify (length (heap w)) (heap w) (db s) = Some M"
    and "json_dumps E M = Inr text"
    and "fs w (db_file_name s) \<noteq> Some Dir" and "writable w (db_file_name s)"
    and "new \<longrightarrow> readable w (db_file_name s)"
  shows "save E new s w =
     (None, s, w\<lparr>fs := (fs w)(db_file_name s \<mapsto> File text),
                 trace := trace w @ [OpenFile (db_file_name s) (text_mode new),
                                     WriteFile (db_file_name s) text]\<rparr>)"
  using assms
  by (auto simp: save_def save_crypto_data_def save_plain_def open_write_def write_file_def
        py_dumps_def split: option.splits node.splits)

lemma load_plain_succeeds:
  assumes "\<not> encryption s"
    and "fs w (db_file_name s) = Some (File text)" and "readable w (db_file_name s)"
    and "json_loads E text = Inr M"
    and "build M (heap w) = (v, h')"
  shows "load E create s w =
     (None, s\<lparr>db := v, loaded := True\<rparr>,
      w\<lparr>trace := trace w @ [ReadFile (db_file_name s)], heap := h'\<rparr>)"
  using assms
  by (simp add: load_def path_exists_def path_isfile_def load_plain_def read_file_def
        py_loads_def)

text \<open>The encrypted write when nothing fails.\<close>

lemma save_write_files_succeeds:
  assumes "fs w (db_file_name s) \<noteq> Some Dir" and "writable w (db_file_name s)"
    and "crypto_data_file_name s = Some cf" and "fs w cf \<noteq> Some Dir" and "writable w cf"
    and "new \<longrightarrow> readable w (db_file_name s) \<and> readable w cf"
    and "interop_dump E md = Inr crypto_text"
  shows "save_write_files E new md c s w =
     (None, s, w\<lparr>fs := (fs w)(db_file_name s \<mapsto> File c, cf \<mapsto> File crypto_text),
        trace := trace w @ [OpenFile (db_file_name s) (binary_mode new),
                            WriteFile (db_file_name s) c,
                            OpenFile cf (text_mode new), WriteFile cf crypto_text]\<rparr>)"
  using assms
  by (auto simp: save_write_files_def open_write_def write_file_def Let_def
        split: option.splits node.splits)

lemma save_encrypted_succeeds:
  assumes "reify (length (heap w)) (heap w) (db s) = Some M"
    and "json_dumps E M = Inr jtext"
    and "str_encode E (encryption_text_encoding s) jtext = Inr plain"
    and "crypto_data s = Some md"
    and "encrypt E md plain (rnd w) = (Inr c, r)"
    and "fs w (db_file_name s) \<noteq> Some Dir" and "writable w (db_file_name s)"
    and "crypto_data_file_name s = Some cf" and "fs w cf \<noteq> Some Dir" and "writable w cf"
    and "interop_dump E md = Inr crypto_text"
    and "new \<longrightarrow> readable w (db_file_name s) \<and> readable w cf"
  shows "save_encrypted E new s w =
     (None, s, w\<lparr>fs := (fs w)(db_file_name s \<mapsto> File c, cf \<mapsto> File crypto_text),
        rnd := r,
        trace := trace w @ [Encrypt md plain, OpenFile (db_file_name s) (binary_mode new),
                            WriteFile (db_file_name s) c,
                            OpenFile cf (text_mode new), WriteFile cf crypto_text]\<rparr>)"
proof -
  let ?w1 = "w\<lparr>trace := trace w @ [Encrypt md plain], rnd := r\<rparr>"
  have "save_encrypted E new s w = save_write_files E new md c s ?w1"
    using assms(1-5) by (simp add: save_encrypted_def py_dumps_def)
  also have "\<dots> = (None, s, ?w1\<lparr>fs := (fs ?w1)(db_file_name s \<mapsto> File c, cf \<mapsto> File crypto_text),
        trace := trace ?w1 @ [OpenFile (db_file_name s) (binary_mode new),
                            WriteFile (db_file_name s) c,
                            OpenFile cf (text_mode new), WriteFile cf crypto_text]\<rparr>)"
    by (rule save_write_files_succeeds) (use assms in simp_all)
  finally show ?thesis by simp
qed

text \<open>The events of the encrypted write, in their order, whether it fails or not.\<close>

lemma save_write_files_trace:
  assumes "save_write_files E new md c s w = (r, s', w')"
  shows "s' = s \<and> heap w' = heap w \<and> rnd w' = rnd w \<and>
    (\<exists>cf crypto_text post.
       trace w' = trace w @ post \<and>
       prefix post [OpenFile (db_file_name s) (binary_mode new), WriteFile (db_file_name s) c,
                    OpenFile cf (text_mode new), WriteFile cf crypto_text] \<and>
       (r = None \<longrightarrow>
          post = [OpenFile (db_file_name s) (binary_mode new), WriteFile (db_file_name s) c,
                  OpenFile cf (text_mode new), WriteFile cf crypto_text] \<and>
          crypto_data_file_name s = Some cf \<and> interop_dump E md = Inr crypto_text))"
proof (cases "open_write (db_file_name s) (binary_mode new) w")
  case (Inl e)
  with assms have "s' = s \<and> w' = w \<and> r = Some e"
    by (simp add: save_write_files_def)
  then show ?thesis by auto
next
  case (Inr w1)
  then have w1: "trace w1 = trace w @ [OpenFile (db_file_name s) (binary_mode new)]"
      "heap w1 = heap w" "rnd w1 = rnd w"
    by (auto simp: open_write_def split: option.splits node.splits if_splits)
  let ?w2 = "write_file (db_file_name s) c w1"
  have w2: "trace ?w2 = trace w @ [OpenFile (db_file_name s) (binary_mode new),
                                   WriteFile (db_file_name s) c]"
      "heap ?w2 = heap w" "rnd ?w2 = rnd w"
    using w1 by (simp_all add: write_file_def)
  show ?thesis
  proof (cases "crypto_data_file_name s")
    case None
    with assms Inr have "s' = s \<and> w' = ?w2 \<and> r \<noteq> None"
      by (auto simp: save_write_files_def)
    with w2 show ?thesis by auto
  next
    case (Some cf)
    show ?thesis
    proof (cases "open_write cf (text_mode new) ?w2")
      case (Inl e)
      with assms Inr Some have "s' = s \<and> w' = ?w2 \<and> r \<noteq> None"
        by (auto simp: save_write_files_def)
      with w2 show ?thesis by auto
    next
      case w3: (Inr w3)
      then have t3: "trace w3 = trace ?w2 @ [OpenFile cf (text_mode new)]"
          "heap w3 = heap w" "rnd w3 = rnd w"
        using w2 by (auto simp: open_write_def split: option.splits node.splits if_splits)
      show ?thesis
      proof (cases "interop_dump E md")
        case (Inl e)
        with assms \<open>open_write (db_file_name s) (binary_mode new) w = Inr w1\<close> Some w3
        have "s' = s \<and> w' = w3 \<and> r \<noteq> None"
          by (auto simp: save_write_files_def)
        with w2 t3 show ?thesis by auto
      next
        case (Inr crypto_text)
        with assms \<open>open_write (db_file_name s) (binary_mode new) w = Inr w1\<close> Some w3
        have "s' = s \<and> w' = write_file cf crypto_text w3 \<and> r = None"
          by (auto simp: save_write_files_def)
        with w2 t3 Some Inr show ?thesis by (auto simp: write_file_def)
      qed
    qed
  qed
qed

lemma save_encrypted_trace:
  assumes "save_encrypted E new s w = (r, s', w')"
  shows "s' = s \<and> heap w' = heap w \<and>
    (\<exists>md plain c cf crypto_text post.
       trace w' = trace w @ post \<and>
       prefix post [Encrypt md plain,
                    OpenFile (db_file_name s) (binary_mode new), WriteFile (db_file_name s) c,
                    OpenFile cf (text_mode new), WriteFile cf crypto_text] \<and>
       (post \<noteq> [] \<longrightarrow> crypto_data s = Some md) \<and>
       (r = None \<longrightarrow>
          post = [Encrypt md plain,
                  OpenFile (db_file_name s) (binary_mode new), WriteFile (db_file_name s) c,
                  OpenFile cf (text_mode new), WriteFile cf crypto_text] \<and>
          fst (encrypt E md plain (rnd w)) = Inr c \<and>
          crypto_data_file_name s = Some cf \<and> interop_dump E md = Inr crypto_text))"
proof -
  consider
    (early) "s' = s" "w' = w" "r \<noteq> None"
  | (enc_fails) md plain e n where "crypto_data s = Some md" "s' = s" "r = Some e"
      "w' = w\<lparr>trace := trace w @ [Encrypt md plain], rnd := n\<rparr>"
  | (files) md plain c n where "crypto_data s = Some md"
      "encrypt E md plain (rnd w) = (Inr c, n)"
      "save_write_files E new md c s (w\<lparr>trace := trace w @ [Encrypt md plain], rnd := n\<rparr>)
         = (r, s', w')"
  proof (cases "py_dumps E (heap w) (db s)")
    case (Inl e)
    with assms have "s' = s \<and> w' = w \<and> r \<noteq> None"
      by (auto simp: save_encrypted_def)
    with early show ?thesis by blast
  next
    case dump: (Inr jtext)
    show ?thesis
    proof (cases "str_encode E (encryption_text_encoding s) jtext")
      case (Inl e)
      with assms dump have "s' = s \<and> w' = w \<and> r \<noteq> None"
        by (auto simp: save_encrypted_def)
      with early show ?thesis by blast
    next
      case bin: (Inr plain)
      show ?thesis
      proof (cases "crypto_data s")
        case None
        with assms dump bin have "s' = s \<and> w' = w \<and> r \<noteq> None"
          by (auto simp: save_encrypted_def)
        with early show ?thesis by blast
      next
        case (Some md)
        obtain res n where en: "encrypt E md plain (rnd w) = (res, n)"
          by (cases "encrypt E md plain (rnd w)")
        show ?thesis
        proof (cases res)
          case (Inl e)
          with assms dump bin Some en
          have "s' = s \<and> r = Some e \<and>
                w' = w\<lparr>trace := trace w @ [Encrypt md plain], rnd := n\<rparr>"
            by (auto simp: save_encrypted_def)
          with enc_fails Some show ?thesis by blast
        next
          case (Inr c)
          with assms dump bin Some en
          have "save_write_files E new md c s
                  (w\<lparr>trace := trace w @ [Encrypt md plain], rnd := n\<rparr>) = (r, s', w')"
            by (auto simp: save_encrypted_def)
          with files Some en Inr show ?thesis by blast
        qed
      qed
    qed
  qed
  then show ?thesis
  proof cases
    case early
    then show ?thesis by auto
  next
    case enc_fails
    then show ?thesis by auto
  next
    case files
    from save_write_files_trace [OF files(3)] obtain cf crypto_text post where
      p: "s' = s" "heap w' = heap w" "trace w' = (trace w @ [Encrypt md plain]) @ post"
        "prefix post [OpenFile (db_file_name s) (binary_mode new), WriteFile (db_file_name s) c,
                    OpenFile cf (text_mode new), WriteFile cf crypto_text]"
        "r = None \<longrightarrow>
          post = [OpenFile (db_file_name s) (binary_mode new), WriteFile (db_file_name s) c,
                  OpenFile cf (text_mode new), WriteFile cf crypto_text] \<and>
          crypto_data_file_name s = Some cf \<and> interop_dump E md = Inr crypto_text"
      by auto
    let ?post = "Encrypt md plain # post"
    have "trace w' = trace w @ ?post" using p(3) by simp
    moreover have "prefix ?post [Encrypt md plain,
                    OpenFile (db_file_name s) (binary_mode new), WriteFile (db_file_name s) c,
                    OpenFile cf (text_mode new), WriteFile cf crypto_text]"
      using p(4) by simp
    moreover have "r = None \<longrightarrow>
          ?post = [Encrypt md plain,
                  OpenFile (db_file_name s) (binary_mode new), WriteFile (db_file_name s) c,
                  OpenFile cf (text_mode new), WriteFile cf crypto_text] \<and>
          fst (encrypt E md plain (rnd w)) = Inr c \<and>
          crypto_data_file_name s = Some cf \<and> interop_dump E md = Inr crypto_text"
      using p(5) files(2) by simp
    ultimately show ?thesis using p(1,2) files(1) by blast
  qed
qed

text \<open>The three outcomes of the key check in lines 44 to 54.\<close>

lemma save_encrypted_events:
  assumes "save_encrypted E new s w = (r, s', w')"
  shows "s' = s \<and>
    (\<exists>evs. trace w' = trace w @ evs \<and> (\<forall>e \<in> set evs. \<not> is_key_event e) \<and>
       (\<forall>m p. Encrypt m p \<in> set evs \<longrightarrow> crypto_data s = Some m))"
proof -
  from save_encrypted_trace [OF assms] obtain md plain c cf crypto_text post where
    p: "s' = s" "trace w' = trace w @ post"
      "prefix post [Encrypt md plain,
                    OpenFile (db_file_name s) (binary_mode new), WriteFile (db_file_name s) c,
                    OpenFile cf (text_mode new), WriteFile cf crypto_text]"
      "post \<noteq> [] \<longrightarrow> crypto_data s = Some md"
    by blast
  from p(3) have sub: "set post \<subseteq> set [Encrypt md plain,
                    OpenFile (db_file_name s) (binary_mode new), WriteFile (db_file_name s) c,
                    OpenFile cf (text_mode new), WriteFile cf crypto_text]"
    by (rule set_mono_prefix)
  have k: "\<forall>e \<in> set post. \<not> is_key_event e"
    using sub by auto
  have m: "\<forall>m p. Encrypt m p \<in> set post \<longrightarrow> crypto_data s = Some m"
    using sub p(4) by auto
  from p(1,2) k m show ?thesis by blast
qed

lemma key_check_passes:
  assumes "encryption s" "crypto_data s = Some md"
    and "check_string_key E md (string_key s) (encryption_text_encoding s) = Inr u"
  shows "save_crypto_data E False s w =
           (None, s, w\<lparr>trace := trace w @ [CheckStringKey md (string_key s)]\<rparr>)"
  using assms by (simp add: save_crypto_data_def key_rotation_check_def)

lemma key_check_invalid:
  assumes "encryption s" "crypto_data s = Some md"
    and "check_string_key E md (string_key s) (encryption_text_encoding s) = Inl InvalidKeyError"
    and "make_new E (string_key s) (encryption_text_encoding s) (rnd w) = (Inr md2, r2)"
  shows "save_crypto_data E False s w =
           (None, s\<lparr>crypto_data := Some md2\<rparr>,
            w\<lparr>trace := trace w @ [CheckStringKey md (string_key s), MakeNew (string_key s)],
              rnd := r2\<rparr>)"
  using assms by (simp add: save_crypto_data_def key_rotation_check_def)

lemma key_check_other:
  assumes "encryption s" "crypto_data s = Some md"
    and "check_string_key E md (string_key s) (encryption_text_encoding s) = Inl e"
    and "e \<noteq> InvalidKeyError"
  shows "save_crypto_data E False s w =
           (Some e, s, w\<lparr>trace := trace w @ [CheckStringKey md (string_key s)]\<rparr>)"
  using assms by (simp add: save_crypto_data_def key_rotation_check_def)

text \<open>The clauses of the Crypto Provider contract, and what a successful encrypted
  \<^verbatim>\<open>save\<close> or \<^verbatim>\<open>load\<close> establishes under it.\<close>

lemma contract_make_new:
  assumes "crypto_contract E key_of encoding"
  shows "\<exists>md r'. make_new E (Some k) encoding r = (Inr md, r') \<and> key_of md = k"
  using assms by (simp add: crypto_contract_def)

lemma contract_check:
  assumes "crypto_contract E key_of encoding"
  shows "check_string_key E md (Some k) encoding =
           (if key_of md = k then Inr () else Inl InvalidKeyError)"
  using assms by (simp add: crypto_contract_def)

lemma contract_encrypt:
  assumes "crypto_contract E key_of encoding"
  shows "\<exists>c r'. encrypt E md p r = (Inr c, r') \<and> decrypt E md c = Inr p"
  using assms by (simp add: crypto_contract_def)

lemma contract_dump:
  assumes "crypto_contract E key_of encoding"
  shows "\<exists>crypto_text. interop_dump E md = Inr crypto_text \<and>
    interop_load E crypto_text (Some (key_of md)) encoding = Inr md"
  using assms by (simp add: crypto_contract_def)

lemma contract_load_binds:
  assumes "crypto_contract E key_of encoding"
    and "interop_load E crypto_text (Some k) encoding = Inr md"
  shows "key_of md = k"
proof -
  from assms(1) have "\<forall>text k md. interop_load E text (Some k) encoding = Inr md \<longrightarrow> key_of md = k"
    by (simp add: crypto_contract_def)
  with assms(2) show ?thesis by blast
qed

lemma contract_wrong_secret:
  assumes "crypto_contract E key_of encoding"
    and "interop_dump E md = Inr crypto_text" and "k \<noteq> key_of md"
    and "interop_load E crypto_text (Some k) encoding = Inr md'"
    and "encrypt E md p r = (Inr c, r')"
  shows "\<exists>e. decrypt E md' c = Inl e"
proof -
  from assms(1) have "\<forall>md text k md'. interop_dump E md = Inr text \<longrightarrow> k \<noteq> key_of md \<longrightarrow>
        interop_load E text (Some k) encoding = Inr md' \<longrightarrow>
        (\<forall>p r c r'. encrypt E md p r = (Inr c, r') \<longrightarrow> (\<exists>e. decrypt E md' c = Inl e))"
    by (simp add: crypto_contract_def)
  with assms(2-5) show ?thesis by blast
qed

lemma save_write_files_fs:
  assumes "save_write_files E new md c s w = (None, s', w')"
  shows "\<exists>cf crypto_text. crypto_data_file_name s = Some cf \<and>
           interop_dump E md = Inr crypto_text \<and>
           fs w' = (fs w)(db_file_name s \<mapsto> File c, cf \<mapsto> File crypto_text) \<and>
           writable w' = writable w \<and> writable w (db_file_name s) \<and> writable w cf"
  using assms
  by (auto simp: save_write_files_def open_write_def write_file_def Let_def
        split: sum.splits option.splits node.splits if_splits)

lemma save_encrypted_fs:
  assumes "save_encrypted E new s w = (None, s', w')"
  shows "s' = s \<and> (\<exists>cf. crypto_data_file_name s = Some cf \<and>
           path_isfile (fs w') cf \<and> writable w' cf \<and> writable w' (db_file_name s) \<and>
           (cf \<noteq> db_file_name s \<longrightarrow> path_isfile (fs w') (db_file_name s)))"
proof -
  from save_encrypted_trace [OF assms] have s: "s' = s" by simp
  from assms obtain md c w1 where "save_write_files E new md c s w1 = (None, s', w')"
    by (auto simp: save_encrypted_def Let_def split: sum.splits option.splits prod.splits)
  from save_write_files_fs [OF this] s show ?thesis
    by (auto simp: path_isfile_def)
qed

lemma save_crypto_data_binds:
  assumes "crypto_contract E key_of (encryption_text_encoding s)"
    and "encryption s" and "string_key s = Some k"
    and "save_crypto_data E new s w = (None, s1, w1)"
  shows "\<exists>md. s1 = s\<lparr>crypto_data := Some md\<rparr> \<and> key_of md = k"
proof -
  let ?enc = "encryption_text_encoding s"
  have mk: "\<exists>md r'. make_new E (Some k) ?enc r = (Inr md, r') \<and> key_of md = k" for r
    by (rule contract_make_new [OF assms(1)])
  show ?thesis
  proof (cases new)
    case True
    from mk [of "rnd w"] obtain md r' where
      m: "make_new E (Some k) ?enc (rnd w) = (Inr md, r')" "key_of md = k" by blast
    with assms(2-4) True have "s1 = s\<lparr>crypto_data := Some md\<rparr>"
      by (auto simp: save_crypto_data_def Let_def)
    with m(2) show ?thesis by blast
  next
    case False
    from assms(2-4) False obtain md0 where md0: "crypto_data s = Some md0"
      by (cases "crypto_data s") (auto simp: save_crypto_data_def key_rotation_check_def)
    have chk: "check_string_key E md0 (Some k) ?enc =
           (if key_of md0 = k then Inr () else Inl InvalidKeyError)"
      by (rule contract_check [OF assms(1)])
    show ?thesis
    proof (cases "key_of md0 = k")
      case True
      with assms(2-4) False md0 chk have "s1 = s"
        by (auto simp: save_crypto_data_def key_rotation_check_def)
      then have "s1 = s\<lparr>crypto_data := Some md0\<rparr>" using md0 by simp
      with True show ?thesis by blast
    next
      case diff: False
      from mk [of "rnd w"] obtain md r' where
        m: "make_new E (Some k) ?enc (rnd w) = (Inr md, r')" "key_of md = k" by blast
      with assms(2-4) False md0 chk diff have "s1 = s\<lparr>crypto_data := Some md\<rparr>"
        by (auto simp: save_crypto_data_def key_rotation_check_def Let_def)
      with m(2) show ?thesis by blast
    qed
  qed
qed

lemma save_success_facts:
  assumes "crypto_contract E key_of (encryption_text_encoding s)"
    and "encryption s" and "string_key s = Some k"
    and "save E new s w = (None, s', w')"
  shows "db s \<noteq> PNone \<and> (\<exists>md. s' = s\<lparr>crypto_data := Some md\<rparr> \<and> key_of md = k) \<and>
    (\<exists>cf. crypto_data_file_name s = Some cf \<and> path_isfile (fs w') cf \<and>
       writable w' cf \<and> writable w' (db_file_name s) \<and>
       (cf \<noteq> db_file_name s \<longrightarrow> path_isfile (fs w') (db_file_name s)))"
proof -
  from assms(4) have nn: "db s \<noteq> PNone"
    by (auto simp: save_def split: if_splits)
  obtain r1 s1 w1 where c: "save_crypto_data E new s w = (r1, s1, w1)"
    by (cases "save_crypto_data E new s w")
  from assms(4) nn c have r1: "r1 = None"
    by (cases r1) (auto simp: save_def)
  from save_crypto_data_binds [OF assms(1-3) c [unfolded r1]] obtain md where
    md: "s1 = s\<lparr>crypto_data := Some md\<rparr>" "key_of md = k" by blast
  from assms(2,4) nn c r1 md(1) have se: "save_encrypted E new s1 w1 = (None, s', w')"
    by (simp add: save_def)
  from save_encrypted_fs [OF se] md show ?thesis using nn by auto
qed

lemma load_success_facts:
  assumes "crypto_contract E key_of (encryption_text_encoding s)"
    and "encryption s" and "string_key s = Some k"
    and "load E create s w = (None, s', w')"
  shows "db s' \<noteq> PNone \<and> (\<exists>md. crypto_data s' = Some md \<and> key_of md = k) \<and>
    db_file_name s' = db_file_name s \<and> encryption s' \<and> string_key s' = Some k \<and>
    crypto_data_file_name s' = crypto_data_file_name s \<and>
    encryption_text_encoding s' = encryption_text_encoding s \<and>
    (\<exists>cf. crypto_data_file_name s = Some cf \<and> path_isfile (fs w') cf \<and>
       writable w' cf \<and> writable w' (db_file_name s) \<and>
       (cf \<noteq> db_file_name s \<longrightarrow> path_isfile (fs w') (db_file_name s)))"
proof -
  have "\<exists>new sa wa sb. save E new sa wa = (None, sb, w') \<and> s' = sb\<lparr>loaded := True\<rparr> \<and>
      db_file_name sa = db_file_name s \<and> encryption sa \<and> string_key sa = Some k \<and>
      crypto_data_file_name sa = crypto_data_file_name s \<and>
      encryption_text_encoding sa = encryption_text_encoding s"
  proof (cases "path_exists (fs w) (db_file_name s)")
    case False
    with assms(4) obtain v h' m where
      sv: "save E True (s\<lparr>db := v, loaded := True\<rparr>) (w\<lparr>heap := h'\<rparr>) = (None, s', w')"
      by (auto simp: load_def load_create_def split: if_splits option.splits)
    have "\<exists>md. s' = s\<lparr>db := v, loaded := True, crypto_data := Some md\<rparr>"
      using save_success_facts [OF _ _ _ sv, of key_of k] assms(1-3) by auto
    then have "s' = s'\<lparr>loaded := True\<rparr>" by auto
    with sv show ?thesis using assms(2,3)
      by (intro exI [of _ True] exI [of _ "s\<lparr>db := v, loaded := True\<rparr>"] exI [of _ "w\<lparr>heap := h'\<rparr>"]
          exI [of _ s']) simp
  next
    case True
    with assms(2,4) obtain s1 where le: "load_encrypted E s w = (None, s1, w')"
        and s': "s' = s1\<lparr>loaded := True\<rparr>"
      by (auto simp: load_def split: if_splits option.splits prod.splits)
    from le obtain md w1 where ld: "load_decrypt E md (s\<lparr>crypto_data := Some md\<rparr>) w1 = (None, s1, w')"
      by (auto simp: load_encrypted_def split: option.splits sum.splits prod.splits)
    then obtain v w2 where
      "save E False (s\<lparr>crypto_data := Some md, db := v\<rparr>) w2 = (None, s1, w')"
      by (auto simp: load_decrypt_def Let_def split: option.splits sum.splits prod.splits)
    with s' assms(2,3) show ?thesis
      by (intro exI [of _ False] exI [of _ "s\<lparr>crypto_data := Some md, db := v\<rparr>"] exI [of _ w2]
          exI [of _ s1]) simp
  qed
  then obtain new sa wa sb where sv: "save E new sa wa = (None, sb, w')"
      and s': "s' = sb\<lparr>loaded := True\<rparr>"
      and f: "db_file_name sa = db_file_name s" "encryption sa" "string_key sa = Some k"
        "crypto_data_file_name sa = crypto_data_file_name s"
        "encryption_text_encoding sa = encryption_text_encoding s"
    by blast
  have c': "crypto_contract E key_of (encryption_text_encoding sa)"
    using assms(1) f(5) by simp
  from save_success_facts [OF c' f(2,3) sv] obtain md cf where
    g: "db sa \<noteq> PNone" "sb = sa\<lparr>crypto_data := Some md\<rparr>" "key_of md = k"
      "crypto_data_file_name sa = Some cf" "path_isfile (fs w') cf"
      "cf \<noteq> db_file_name sa \<longrightarrow> path_isfile (fs w') (db_file_name sa)"
      "writable w' cf" "writable w' (db_file_name sa)"
    by blast
  have "\<exists>cf. crypto_data_file_name s = Some cf \<and> path_isfile (fs w') cf \<and>
       writable w' cf \<and> writable w' (db_file_name s) \<and>
       (cf \<noteq> db_file_name s \<longrightarrow> path_isfile (fs w') (db_file_name s))"
  proof -
    have "crypto_data_file_name s = Some cf" using f(4) g(4) by simp
    moreover have "cf \<noteq> db_file_name s \<longrightarrow> path_isfile (fs w') (db_file_name s)"
      using g(6) f(1) by simp
    moreover have "writable w' (db_file_name s)" using g(8) f(1) by simp
    ultimately show ?thesis using g(5,7) by blast
  qed
  then show ?thesis using s' f g(1-3) by simp
qed


lemma build_not_none: "build M h = (v, h') \<Longrightarrow> M \<noteq> JNull \<Longrightarrow> v \<noteq> PNone"
  by (cases M) (auto split: prod.splits)

lemma save_same_secret:
  assumes "crypto_contract E key_of (encryption_text_encoding s)"
    and "encryption s" and "string_key s = Some k"
    and "crypto_data s = Some md" and "key_of md = k" and "db s \<noteq> PNone"
    and "reify (length (heap w)) (heap w) (db s) = Some M"
    and "json_dumps E M = Inr jtext"
    and "str_encode E (encryption_text_encoding s) jtext = Inr plain"
    and "crypto_data_file_name s = Some cf"
    and "fs w (db_file_name s) \<noteq> Some Dir" and "fs w cf \<noteq> Some Dir"
    and "writable w (db_file_name s)" and "writable w cf"
  shows "\<exists>w'. save E False s w = (None, s, w') \<and> heap w' = heap w"
proof -
  let ?w1 = "w\<lparr>trace := trace w @ [CheckStringKey md (string_key s)]\<rparr>"
  have "check_string_key E md (string_key s) (encryption_text_encoding s) = Inr ()"
    using contract_check [OF assms(1), of md k] assms(3,5) by simp
  from key_check_passes [OF assms(2,4) this]
  have sv: "save E False s w = save_encrypted E False s ?w1"
    using assms(2,6) by (simp add: save_def)
  from contract_encrypt [OF assms(1), of md plain "rnd ?w1"] obtain c r' where
    en: "encrypt E md plain (rnd ?w1) = (Inr c, r')" by blast
  from contract_dump [OF assms(1), of md] obtain crypto_text where
    du: "interop_dump E md = Inr crypto_text" by blast
  have "save_encrypted E False s ?w1 =
     (None, s, ?w1\<lparr>fs := (fs ?w1)(db_file_name s \<mapsto> File c, cf \<mapsto> File crypto_text),
        rnd := r',
        trace := trace ?w1 @ [Encrypt md plain, OpenFile (db_file_name s) (binary_mode False),
                            WriteFile (db_file_name s) c,
                            OpenFile cf (text_mode False), WriteFile cf crypto_text]\<rparr>)"
    by (rule save_encrypted_succeeds [where M = M and jtext = jtext])
      (use assms en du in simp_all)
  with sv show ?thesis by simp
qed

lemma save_new_secret:
  assumes "crypto_contract E key_of (encryption_text_encoding s)"
    and "encryption s" and "string_key s = Some k"
    and "crypto_data s = Some md_old" and "key_of md_old \<noteq> k" and "db s \<noteq> PNone"
    and "reify (length (heap w)) (heap w) (db s) = Some M"
    and "json_dumps E M = Inr jtext"
    and "str_encode E (encryption_text_encoding s) jtext = Inr plain"
    and "crypto_data_file_name s = Some cf"
    and "fs w (db_file_name s) \<noteq> Some Dir" and "fs w cf \<noteq> Some Dir"
    and "writable w (db_file_name s)" and "writable w cf"
  shows "\<exists>md c crypto_text r r' w'. key_of md = k \<and>
           save E False s w = (None, s\<lparr>crypto_data := Some md\<rparr>, w') \<and>
           fs w' = (fs w)(db_file_name s \<mapsto> File c, cf \<mapsto> File crypto_text) \<and>
           openable w' = openable w \<and>
           interop_dump E md = Inr crypto_text \<and> encrypt E md plain r = (Inr c, r')"
proof -
  have ck: "check_string_key E md_old (string_key s) (encryption_text_encoding s) = Inl InvalidKeyError"
    using contract_check [OF assms(1), of md_old k] assms(3,5) by simp
  from contract_make_new [OF assms(1), of k "rnd w"] obtain md r2 where
    mk: "make_new E (string_key s) (encryption_text_encoding s) (rnd w) = (Inr md, r2)"
      "key_of md = k"
    using assms(3) by auto
  let ?s1 = "s\<lparr>crypto_data := Some md\<rparr>"
  let ?w1 = "w\<lparr>trace := trace w @ [CheckStringKey md_old (string_key s), MakeNew (string_key s)],
              rnd := r2\<rparr>"
  from key_check_invalid [OF assms(2,4) ck mk(1)]
  have sv: "save E False s w = save_encrypted E False ?s1 ?w1"
    using assms(2,6) by (simp add: save_def)
  from contract_encrypt [OF assms(1), of md plain r2] obtain c r' where
    en: "encrypt E md plain r2 = (Inr c, r')" by blast
  from contract_dump [OF assms(1), of md] obtain crypto_text where
    du: "interop_dump E md = Inr crypto_text" by blast
  have "save_encrypted E False ?s1 ?w1 =
     (None, ?s1, ?w1\<lparr>fs := (fs ?w1)(db_file_name ?s1 \<mapsto> File c, cf \<mapsto> File crypto_text),
        rnd := r',
        trace := trace ?w1 @ [Encrypt md plain, OpenFile (db_file_name ?s1) (binary_mode False),
                            WriteFile (db_file_name ?s1) c,
                            OpenFile cf (text_mode False), WriteFile cf crypto_text]\<rparr>)"
    by (rule save_encrypted_succeeds [where M = M and jtext = jtext])
      (use assms en du in simp_all)
  with sv have "save E False s w = (None, ?s1,
      ?w1\<lparr>fs := (fs ?w1)(db_file_name ?s1 \<mapsto> File c, cf \<mapsto> File crypto_text),
        rnd := r',
        trace := trace ?w1 @ [Encrypt md plain, OpenFile (db_file_name ?s1) (binary_mode False),
                            WriteFile (db_file_name ?s1) c,
                            OpenFile cf (text_mode False), WriteFile cf crypto_text]\<rparr>)"
    by simp
  moreover have "fs (?w1\<lparr>fs := (fs ?w1)(db_file_name ?s1 \<mapsto> File c, cf \<mapsto> File crypto_text),
        rnd := r',
        trace := trace ?w1 @ [Encrypt md plain, OpenFile (db_file_name ?s1) (binary_mode False),
                            WriteFile (db_file_name ?s1) c,
                            OpenFile cf (text_mode False), WriteFile cf crypto_text]\<rparr>)
      = (fs w)(db_file_name s \<mapsto> File c, cf \<mapsto> File crypto_text)"
    by simp
  moreover have "openable (?w1\<lparr>fs := (fs ?w1)(db_file_name ?s1 \<mapsto> File c, cf \<mapsto> File crypto_text),
        rnd := r',
        trace := trace ?w1 @ [Encrypt md plain, OpenFile (db_file_name ?s1) (binary_mode False),
                            WriteFile (db_file_name ?s1) c,
                            OpenFile cf (text_mode False), WriteFile cf crypto_text]\<rparr>)
      = openable w"
    by simp
  ultimately show ?thesis using mk(2) du en by blast
qed

lemma load_right_secret:
  assumes "crypto_contract E key_of (encryption_text_encoding t)"
    and "encryption t" and "string_key t = Some k"
    and "crypto_data_file_name t = Some cf" and "cf \<noteq> db_file_name t"
    and "fs w (db_file_name t) = Some (File c)" and "fs w cf = Some (File crypto_text)"
    and "interop_dump E md = Inr crypto_text" and "key_of md = k"
    and "encrypt E md plain r = (Inr c, r')"
    and "bytes_decode E (encryption_text_encoding t) plain = Inr jtext"
    and "str_encode E (encryption_text_encoding t) jtext = Inr plain"
    and "json_loads E jtext = Inr M" and "json_dumps E M = Inr jtext" and "M \<noteq> JNull"
    and "openable w (db_file_name t)" and "openable w cf"
  shows "\<exists>t' w'. load E create t w = (None, t', w') \<and> loaded t' \<and>
           reify (length (heap w')) (heap w') (db t') = Some M"
proof -
  let ?enc = "encryption_text_encoding t"
  have il: "interop_load E crypto_text (Some k) ?enc = Inr md"
    using contract_dump [OF assms(1), of md] assms(8,9) by auto
  have de: "decrypt E md c = Inr plain"
    using contract_encrypt [OF assms(1), of md plain r] assms(10) by auto
  let ?w1 = "w\<lparr>trace := trace w @ [ReadFile cf]\<rparr>"
  let ?t1 = "t\<lparr>crypto_data := Some md\<rparr>"
  let ?w2 = "w\<lparr>trace := trace w @ [ReadFile cf, ReadFile (db_file_name t), Decrypt md c]\<rparr>"
  obtain v h' where b: "build M (heap w) = (v, h')" by (cases "build M (heap w)")
  let ?t2 = "?t1\<lparr>db := v\<rparr>"
  let ?w3 = "?w2\<lparr>heap := h'\<rparr>"
  have le: "load_encrypted E t w = save E False ?t2 ?w3"
    using assms(3,4,6,7,11,13) openableD [OF assms(16)] openableD [OF assms(17)] il de b
    by (simp add: load_encrypted_def load_decrypt_def read_file_def py_loads_def)
  have "\<exists>w'. save E False ?t2 ?w3 = (None, ?t2, w') \<and> heap w' = heap ?w3"
    by (rule save_same_secret [where key_of = key_of and k = k and md = md and M = M
          and jtext = jtext and plain = plain and cf = cf])
      (use assms openableD [OF assms(16)] openableD [OF assms(17)]
          build_reify [OF b] build_not_none [OF b] in simp_all)
  then obtain w' where sv: "save E False ?t2 ?w3 = (None, ?t2, w')" "heap w' = h'"
    by auto
  have "load E create t w = (None, ?t2\<lparr>loaded := True\<rparr>, w')"
    using assms(2,6) le sv(1) by (simp add: load_def path_exists_def path_isfile_def)
  moreover have "reify (length (heap w')) (heap w') (db (?t2\<lparr>loaded := True\<rparr>)) = Some M"
    using build_reify [OF b] sv(2) by simp
  ultimately show ?thesis by simp
qed

lemma load_wrong_secret:
  assumes "crypto_contract E key_of (encryption_text_encoding t)"
    and "encryption t" and "string_key t = Some k"
    and "crypto_data_file_name t = Some cf"
    and "fs w (db_file_name t) = Some (File c)" and "fs w cf = Some (File crypto_text)"
    and "interop_dump E md = Inr crypto_text" and "k \<noteq> key_of md"
    and "encrypt E md plain r = (Inr c, r')"
    and "openable w (db_file_name t)" and "openable w cf"
  shows "fst (load E create t w) \<noteq> None"
proof (cases "interop_load E crypto_text (Some k) (encryption_text_encoding t)")
  case (Inl e)
  with assms(2-6) openableD [OF assms(10)] openableD [OF assms(11)] show ?thesis
    by (simp add: load_def path_exists_def path_isfile_def load_encrypted_def read_file_def)
next
  case (Inr md')
  from contract_wrong_secret [OF assms(1,7,8) Inr assms(9)] obtain e where
    "decrypt E md' c = Inl e" by blast
  with Inr assms(2-6) openableD [OF assms(10)] openableD [OF assms(11)] show ?thesis
    by (simp add: load_def path_exists_def path_isfile_def load_encrypted_def load_decrypt_def
        read_file_def)
qed

lemma reify_null: "reify n h v = Some JNull \<Longrightarrow> v = PNone"
  by (cases v; cases n) (auto split: if_splits pyobj.splits)

subsection \<open>The key-rotation check\<close>

text \<open>
  Claim C1. In \<^verbatim>\<open>save\<close> with encryption on and \<^verbatim>\<open>_new = False\<close>, on a store that holds a
  mapping and metadata \<open>md\<close>: if \<^verbatim>\<open>check_string_key\<close> returns, the metadata of the store stays
  \<open>md\<close>, nothing is regenerated after the check and every encryption uses \<open>md\<close>; if it raises
  \<open>InvalidKeyError\<close> and \<^verbatim>\<open>make_new\<close> returns \<open>md2\<close>, the regeneration follows the check
  directly, the metadata of the store becomes \<open>md2\<close> and every encryption comes later and
  uses \<open>md2\<close>; if it raises any other exception \<open>e\<close>, \<^verbatim>\<open>save\<close> raises \<open>e\<close> itself, with the
  object, the files and the heap untouched.
\<close>

theorem key_rotation_check_outcomes:
  assumes "encryption s" and "db s \<noteq> PNone" and "crypto_data s = Some md"
    and "save E False s w = (r, s', w')"
  shows
    "(check_string_key E md (string_key s) (encryption_text_encoding s) = Inr () \<longrightarrow>
        crypto_data s' = Some md \<and>
        (\<exists>evs. trace w' = trace w @ CheckStringKey md (string_key s) # evs \<and>
           (\<forall>e \<in> set evs. \<not> is_key_event e) \<and>
           (\<forall>m p. Encrypt m p \<in> set evs \<longrightarrow> m = md))) \<and>
     (check_string_key E md (string_key s) (encryption_text_encoding s) = Inl InvalidKeyError \<longrightarrow>
        (\<forall>md2 r2. make_new E (string_key s) (encryption_text_encoding s) (rnd w) = (Inr md2, r2) \<longrightarrow>
           crypto_data s' = Some md2 \<and>
           (\<exists>evs. trace w' =
                    trace w @ CheckStringKey md (string_key s) # MakeNew (string_key s) # evs \<and>
              (\<forall>e \<in> set evs. \<not> is_key_event e) \<and>
              (\<forall>m p. Encrypt m p \<in> set evs \<longrightarrow> m = md2)))) \<and>
     (\<forall>e. check_string_key E md (string_key s) (encryption_text_encoding s) = Inl e \<and>
          e \<noteq> InvalidKeyError \<longrightarrow>
        r = Some e \<and> s' = s \<and> fs w' = fs w \<and> heap w' = heap w \<and>
        trace w' = trace w @ [CheckStringKey md (string_key s)])"
proof (intro conjI impI allI)
  assume ok: "check_string_key E md (string_key s) (encryption_text_encoding s) = Inr ()"
  let ?w1 = "w\<lparr>trace := trace w @ [CheckStringKey md (string_key s)]\<rparr>"
  have "save E False s w = save_encrypted E False s ?w1"
    using assms(1,2) key_check_passes [OF assms(1,3) ok] by (simp add: save_def)
  with assms(4) have se: "save_encrypted E False s ?w1 = (r, s', w')" by simp
  from save_encrypted_events [OF se] assms(3)
  show "crypto_data s' = Some md" by simp
  from save_encrypted_events [OF se] assms(3)
  show "\<exists>evs. trace w' = trace w @ CheckStringKey md (string_key s) # evs \<and>
           (\<forall>e \<in> set evs. \<not> is_key_event e) \<and>
           (\<forall>m p. Encrypt m p \<in> set evs \<longrightarrow> m = md)"
    by auto
next
  fix md2 r2
  assume inv: "check_string_key E md (string_key s) (encryption_text_encoding s) = Inl InvalidKeyError"
    and mk: "make_new E (string_key s) (encryption_text_encoding s) (rnd w) = (Inr md2, r2)"
  let ?s1 = "s\<lparr>crypto_data := Some md2\<rparr>"
  let ?w1 = "w\<lparr>trace := trace w @ [CheckStringKey md (string_key s), MakeNew (string_key s)],
              rnd := r2\<rparr>"
  have "save E False s w = save_encrypted E False ?s1 ?w1"
    using assms(1,2) key_check_invalid [OF assms(1,3) inv mk] by (simp add: save_def)
  with assms(4) have se: "save_encrypted E False ?s1 ?w1 = (r, s', w')" by simp
  from save_encrypted_events [OF se]
  show "crypto_data s' = Some md2" by simp
  from save_encrypted_events [OF se]
  show "\<exists>evs. trace w' =
                    trace w @ CheckStringKey md (string_key s) # MakeNew (string_key s) # evs \<and>
              (\<forall>e \<in> set evs. \<not> is_key_event e) \<and>
              (\<forall>m p. Encrypt m p \<in> set evs \<longrightarrow> m = md2)"
    by auto
next
  fix e
  assume "check_string_key E md (string_key s) (encryption_text_encoding s) = Inl e \<and>
          e \<noteq> InvalidKeyError"
  then have o: "check_string_key E md (string_key s) (encryption_text_encoding s) = Inl e"
      "e \<noteq> InvalidKeyError" by simp_all
  have "save E False s w = (Some e, s, w\<lparr>trace := trace w @ [CheckStringKey md (string_key s)]\<rparr>)"
    using assms(2) key_check_other [OF assms(1,3) o] by (simp add: save_def)
  with assms(4) show "r = Some e" "s' = s" "fs w' = fs w" "heap w' = heap w"
    "trace w' = trace w @ [CheckStringKey md (string_key s)]"
    by auto
qed

theorem key_rotation_check_outcomes_witness:
  "encryption rotated_store \<and> db rotated_store \<noteq> PNone \<and>
   crypto_data rotated_store = Some ''old'' \<and>
   check_string_key toy_env ''old'' (string_key rotated_store)
     (encryption_text_encoding rotated_store) = Inl InvalidKeyError \<and>
   make_new toy_env (string_key rotated_store) (encryption_text_encoding rotated_store)
     (rnd dict_world) = (Inr ''new'', 1) \<and>
   save toy_env False rotated_store dict_world =
     (None, rotated_store\<lparr>crypto_data := Some ''new''\<rparr>, rotated_world) \<and>
   crypto_data (rotated_store\<lparr>crypto_data := Some ''new''\<rparr>) = Some ''new'' \<and>
   (\<exists>evs. trace rotated_world =
      trace dict_world @ CheckStringKey ''old'' (string_key rotated_store)
        # MakeNew (string_key rotated_store) # evs \<and>
      (\<forall>e \<in> set evs. \<not> is_key_event e) \<and>
      (\<forall>m p. Encrypt m p \<in> set evs \<longrightarrow> m = ''new'')) \<and>
   check_string_key toy_env ''k'' (string_key checked_store)
     (encryption_text_encoding checked_store) = Inr () \<and>
   crypto_data (fst (snd (save toy_env False checked_store dict_world))) = Some ''k'' \<and>
   check_string_key failing_env ''k'' (string_key checked_store)
     (encryption_text_encoding checked_store) = Inl (LibraryError ''OSError'') \<and>
   fst (save failing_env False checked_store dict_world) = Some (LibraryError ''OSError'') \<and>
   fs (snd (snd (save failing_env False checked_store dict_world))) = fs dict_world"
proof -
  have a: "encryption rotated_store" "db rotated_store \<noteq> PNone"
      "crypto_data rotated_store = Some ''old''"
    by (simp_all add: rotated_store_def secret_store_def init_def)
  have b: "check_string_key toy_env ''old'' (string_key rotated_store)
     (encryption_text_encoding rotated_store) = Inl InvalidKeyError"
    by (simp add: rotated_store_def secret_store_def init_def toy_check_def)
  have c: "make_new toy_env (string_key rotated_store) (encryption_text_encoding rotated_store)
     (rnd dict_world) = (Inr ''new'', 1)"
    by (simp add: rotated_store_def secret_store_def init_def toy_make_new_def dict_world_def)
  from key_rotation_check_outcomes [OF a rotated_save] b c
  have "crypto_data (rotated_store\<lparr>crypto_data := Some ''new''\<rparr>) = Some ''new'' \<and>
   (\<exists>evs. trace rotated_world =
      trace dict_world @ CheckStringKey ''old'' (string_key rotated_store)
        # MakeNew (string_key rotated_store) # evs \<and>
      (\<forall>e \<in> set evs. \<not> is_key_event e) \<and>
      (\<forall>m p. Encrypt m p \<in> set evs \<longrightarrow> m = ''new''))"
    by blast
  note rotated = this
  have d: "encryption checked_store" "db checked_store \<noteq> PNone"
      "crypto_data checked_store = Some ''k''"
    by (simp_all add: checked_store_def secret_store_def init_def)
  have ok: "check_string_key toy_env ''k'' (string_key checked_store)
     (encryption_text_encoding checked_store) = Inr ()"
    by (simp add: checked_store_def secret_store_def init_def toy_check_def)
  have bad: "check_string_key failing_env ''k'' (string_key checked_store)
     (encryption_text_encoding checked_store) = Inl (LibraryError ''OSError'')"
    by (simp add: failing_env_def)
  obtain r1 s1 w1 where s1: "save toy_env False checked_store dict_world = (r1, s1, w1)"
    by (cases "save toy_env False checked_store dict_world")
  obtain r2 s2 w2 where s2: "save failing_env False checked_store dict_world = (r2, s2, w2)"
    by (cases "save failing_env False checked_store dict_world")
  from key_rotation_check_outcomes [OF d s1] ok
  have kept: "crypto_data (fst (snd (save toy_env False checked_store dict_world))) = Some ''k''"
    using s1 by simp
  from key_rotation_check_outcomes [OF d s2] bad
  have other: "fst (save failing_env False checked_store dict_world) = Some (LibraryError ''OSError'')"
      "fs (snd (snd (save failing_env False checked_store dict_world))) = fs dict_world"
    using s2 by auto
  from a b c rotated_save rotated ok kept bad other show ?thesis by blast
qed

subsection \<open>Key rotation\<close>

lemma toy_contract: "crypto_contract toy_env (\<lambda>md. md) ''utf-8''"
  by (auto simp: crypto_contract_def toy_defs)

lemma first_load:
  "load toy_env True (secret_store ''old'') dict_world =
     (None, created_store, created_world)"
  by (simp add: created_store_def created_world_def secret_store_def init_def dict_world_def load_def load_create_def path_exists_def
      save_defs toy_defs)

text \<open>
  Claim C2. Let the Crypto Provider keep its contract, and let an encrypted store with secret
  \<open>S\<close> have been loaded successfully. Let the secret attribute then be reassigned to
  \<open>S'\<close>, different from \<open>S\<close>, without reloading, and let the mapping (after whatever the caller
  did to the heap) denote a tree \<open>M\<close> that the serialiser and the text codec round-trip. Then
  \<^verbatim>\<open>save\<close> succeeds; afterwards, on the files it left, \<^verbatim>\<open>load\<close> of a fresh store configured
  with \<open>S'\<close> succeeds with a mapping that denotes \<open>M\<close>, and \<^verbatim>\<open>load\<close> of a fresh store
  configured with the old secret \<open>S\<close> raises. The metadata path is configured and differs from
  the data path, and the fresh stores may open both files.
\<close>

theorem key_rotation_roundtrip:
  assumes "crypto_contract E key_of (encryption_text_encoding s0)"
    and "encryption s0" and "string_key s0 = Some S" and "S' \<noteq> S"
    and "crypto_data_file_name s0 = Some cf" and "cf \<noteq> db_file_name s0"
    and "load E create s0 w0 = (None, s1, w1)"
    and "reify (length h) h (db s1) = Some M"
    and "json_dumps E M = Inr jtext" and "json_loads E jtext = Inr M"
    and "str_encode E (encryption_text_encoding s0) jtext = Inr plain"
    and "bytes_decode E (encryption_text_encoding s0) plain = Inr jtext"
  shows "\<exists>s2 w2.
    save E False (s1\<lparr>string_key := Some S'\<rparr>) (w1\<lparr>heap := h\<rparr>) = (None, s2, w2) \<and>
    openable w2 = openable w1 \<and>
    (\<forall>d c w3. fs w3 = fs w2 \<and> openable w3 (db_file_name s0) \<and> openable w3 cf \<longrightarrow>
       (\<exists>s4 w4.
          load E c (init (db_file_name s0) d True (Some cf) (Some S')
                      (encryption_text_encoding s0)) w3 = (None, s4, w4) \<and>
          loaded s4 \<and> reify (length (heap w4)) (heap w4) (db s4) = Some M) \<and>
       fst (load E c (init (db_file_name s0) d True (Some cf) (Some S)
                        (encryption_text_encoding s0)) w3) \<noteq> None)"
proof -
  let ?enc = "encryption_text_encoding s0"
  let ?dbf = "db_file_name s0"
  from load_success_facts [OF assms(1-3,7)] assms(5) obtain md1 where
    a: "db s1 \<noteq> PNone" "crypto_data s1 = Some md1" "key_of md1 = S"
      "db_file_name s1 = ?dbf" "encryption s1" "crypto_data_file_name s1 = Some cf"
      "encryption_text_encoding s1 = ?enc"
      "path_isfile (fs w1) cf" "path_isfile (fs w1) ?dbf"
      "writable w1 cf" "writable w1 ?dbf"
    using assms(6) by auto
  from a(1) assms(8) have mn: "M \<noteq> JNull" using reify_null by blast
  let ?s1 = "s1\<lparr>string_key := Some S'\<rparr>"
  let ?w1 = "w1\<lparr>heap := h\<rparr>"
  have nd: "fs ?w1 (db_file_name ?s1) \<noteq> Some Dir" "fs ?w1 cf \<noteq> Some Dir"
    using a(4,8,9) by (auto simp: path_isfile_def split: option.splits node.splits)
  have "\<exists>md c crypto_text r r' w'. key_of md = S' \<and>
           save E False ?s1 ?w1 = (None, ?s1\<lparr>crypto_data := Some md\<rparr>, w') \<and>
           fs w' = (fs ?w1)(db_file_name ?s1 \<mapsto> File c, cf \<mapsto> File crypto_text) \<and>
           openable w' = openable ?w1 \<and>
           interop_dump E md = Inr crypto_text \<and> encrypt E md plain r = (Inr c, r')"
    by (rule save_new_secret [where key_of = key_of and md_old = md1 and M = M and jtext = jtext])
      (use assms a nd in simp_all)
  then obtain md2 c crypto_text r r' w2 where
    b: "key_of md2 = S'" "save E False ?s1 ?w1 = (None, ?s1\<lparr>crypto_data := Some md2\<rparr>, w2)"
      "fs w2 = (fs w1)(?dbf \<mapsto> File c, cf \<mapsto> File crypto_text)"
      "interop_dump E md2 = Inr crypto_text" "encrypt E md2 plain r = (Inr c, r')"
      "openable w2 = openable w1"
    using a(4) by auto
  have "(\<exists>s4 w4.
          load E c' (init ?dbf d True (Some cf) (Some S') ?enc) w3 = (None, s4, w4) \<and>
          loaded s4 \<and> reify (length (heap w4)) (heap w4) (db s4) = Some M) \<and>
       fst (load E c' (init ?dbf d True (Some cf) (Some S) ?enc) w3) \<noteq> None"
    if w3: "fs w3 = fs w2" and op: "openable w3 ?dbf" "openable w3 cf" for d c' w3
  proof
    let ?t = "init ?dbf d True (Some cf) (Some S') ?enc :: 'a store"
    have f: "fs w3 (db_file_name ?t) = Some (File c)" "fs w3 cf = Some (File crypto_text)"
      using w3 b(3) assms(6) by (simp_all add: init_def)
    show "\<exists>s4 w4. load E c' ?t w3 = (None, s4, w4) \<and>
          loaded s4 \<and> reify (length (heap w4)) (heap w4) (db s4) = Some M"
      by (rule load_right_secret [where key_of = key_of and k = S' and cf = cf and c = c
            and crypto_text = crypto_text and md = md2 and plain = plain and r = r and r' = r'
            and jtext = jtext])
        (use assms f b mn op in \<open>simp_all add: init_def\<close>)
  next
    let ?u = "init ?dbf d True (Some cf) (Some S) ?enc :: 'a store"
    have f: "fs w3 (db_file_name ?u) = Some (File c)" "fs w3 cf = Some (File crypto_text)"
      using w3 b(3) assms(6) by (simp_all add: init_def)
    show "fst (load E c' ?u w3) \<noteq> None"
      by (rule load_wrong_secret [where key_of = key_of and k = S and cf = cf and c = c
            and crypto_text = crypto_text and md = md2 and plain = plain and r = r and r' = r'])
        (use assms f b op in \<open>simp_all add: init_def\<close>)
  qed
  with b(2,6) show ?thesis by blast
qed

theorem key_rotation_roundtrip_witness:
  "crypto_contract toy_env (\<lambda>md. md) (encryption_text_encoding (secret_store ''old'')) \<and>
   encryption (secret_store ''old'') \<and> string_key (secret_store ''old'') = Some ''old'' \<and>
   ''new'' \<noteq> ''old'' \<and>
   crypto_data_file_name (secret_store ''old'') = Some ''db.cryptodata'' \<and>
   ''db.cryptodata'' \<noteq> db_file_name (secret_store ''old'') \<and>
   load toy_env True (secret_store ''old'') dict_world = (None, created_store, created_world) \<and>
   reify (length (heap created_world)) (heap created_world) (db created_store) = Some (JDict []) \<and>
   json_dumps toy_env (JDict []) = Inr ''{}'' \<and> json_loads toy_env ''{}'' = Inr (JDict []) \<and>
   str_encode toy_env (encryption_text_encoding (secret_store ''old'')) ''{}'' = Inr ''{}'' \<and>
   bytes_decode toy_env (encryption_text_encoding (secret_store ''old'')) ''{}'' = Inr ''{}'' \<and>
   (\<exists>s2 w2.
      save toy_env False (created_store\<lparr>string_key := Some ''new''\<rparr>)
        (created_world\<lparr>heap := heap created_world\<rparr>) = (None, s2, w2) \<and>
      (\<exists>s4 w4.
         load toy_env True (secret_store ''new'') w2 = (None, s4, w4) \<and> loaded s4 \<and>
         reify (length (heap w4)) (heap w4) (db s4) = Some (JDict [])) \<and>
      fst (load toy_env True (secret_store ''old'') w2) \<noteq> None)"
proof -
  let ?s0 = "secret_store ''old''"
  have e: "encryption_text_encoding ?s0 = ''utf-8''" "db_file_name ?s0 = ''db.bin''"
    by (simp_all add: secret_store_def init_def)
  have h1: "crypto_contract toy_env (\<lambda>md. md) (encryption_text_encoding ?s0)"
    using toy_contract e by simp
  have h2: "encryption ?s0" "string_key ?s0 = Some ''old''" "''new'' \<noteq> ''old''"
      "crypto_data_file_name ?s0 = Some ''db.cryptodata''"
      "''db.cryptodata'' \<noteq> db_file_name ?s0"
    by (simp_all add: secret_store_def init_def)
  have h3: "reify (length (heap created_world)) (heap created_world) (db created_store)
      = Some (JDict [])"
    by (simp add: created_world_def created_store_def)
  have h4: "json_dumps toy_env (JDict []) = Inr ''{}''" "json_loads toy_env ''{}'' = Inr (JDict [])"
      "str_encode toy_env (encryption_text_encoding ?s0) ''{}'' = Inr ''{}''"
      "bytes_decode toy_env (encryption_text_encoding ?s0) ''{}'' = Inr ''{}''"
    by (simp_all add: toy_defs e)
  have i: "init (db_file_name ?s0) (PRef 0) True (Some ''db.cryptodata'') (Some k)
             (encryption_text_encoding ?s0) = (secret_store k :: string store)" for k
    by (simp add: secret_store_def init_def)
  from key_rotation_roundtrip [OF h1 h2 first_load h3 h4]
  obtain s2 w2 where
    r: "save toy_env False (created_store\<lparr>string_key := Some ''new''\<rparr>)
          (created_world\<lparr>heap := heap created_world\<rparr>) = (None, s2, w2)"
      "openable w2 = openable created_world"
      "\<forall>d c w3. fs w3 = fs w2 \<and> openable w3 (db_file_name ?s0) \<and> openable w3 ''db.cryptodata'' \<longrightarrow>
       (\<exists>s4 w4.
          load toy_env c (init (db_file_name ?s0) d True (Some ''db.cryptodata'') (Some ''new'')
                      (encryption_text_encoding ?s0)) w3 = (None, s4, w4) \<and>
          loaded s4 \<and> reify (length (heap w4)) (heap w4) (db s4) = Some (JDict [])) \<and>
       fst (load toy_env c (init (db_file_name ?s0) d True (Some ''db.cryptodata'') (Some ''old'')
                        (encryption_text_encoding ?s0)) w3) \<noteq> None"
    by blast
  have o: "openable w2 (db_file_name ?s0)" "openable w2 ''db.cryptodata''"
    using r(2) by (simp_all add: created_world_def openable_def)
  from r(3) [THEN spec, of "PRef 0", THEN spec, of True, THEN spec, of w2] i o
  have "(\<exists>s4 w4.
         load toy_env True (secret_store ''new'') w2 = (None, s4, w4) \<and> loaded s4 \<and>
         reify (length (heap w4)) (heap w4) (db s4) = Some (JDict [])) \<and>
      fst (load toy_env True (secret_store ''old'') w2) \<noteq> None"
    by simp
  with r(1) h1 h2 first_load h3 h4 show ?thesis by blast
qed

subsection \<open>The order of an encrypted \<^verbatim>\<open>save\<close>\<close>

lemma save_crypto_data_trace:
  assumes "save_crypto_data E new s w = (r, s', w')"
  shows "db s' = db s \<and> encryption s' = encryption s \<and> db_file_name s' = db_file_name s \<and>
    crypto_data_file_name s' = crypto_data_file_name s \<and> heap w' = heap w \<and> fs w' = fs w \<and>
    (\<exists>pre. trace w' = trace w @ pre \<and> (\<forall>e \<in> set pre. is_key_event e) \<and>
       (r = None \<and> encryption s \<and>
        (new \<or> (\<exists>md0. crypto_data s = Some md0 \<and>
                  check_string_key E md0 (string_key s) (encryption_text_encoding s)
                    = Inl InvalidKeyError))
        \<longrightarrow> MakeNew (string_key s) \<in> set pre))"
proof (cases "encryption s")
  case False
  with assms have "s' = s \<and> w' = w" by (simp add: save_crypto_data_def)
  with False show ?thesis by simp
next
  case True
  obtain chk w1 where k: "(if \<not> new then key_rotation_check E s w else (Inr False, w)) = (chk, w1)"
    by (cases "if \<not> new then key_rotation_check E s w else (Inr False, w)")
  have w1: "heap w1 = heap w \<and> fs w1 = fs w \<and> rnd w1 = rnd w \<and>
      (\<exists>pre. trace w1 = trace w @ pre \<and> (\<forall>e \<in> set pre. is_key_event e))"
    using k by (auto simp: key_rotation_check_def Let_def split: if_splits option.splits sum.splits)
  have chg: "chk = Inr True" if "\<not> new" "crypto_data s = Some md0"
      "check_string_key E md0 (string_key s) (encryption_text_encoding s) = Inl InvalidKeyError"
    for md0
    using k that by (simp add: key_rotation_check_def)
  show ?thesis
  proof (cases chk)
    case (Inl e)
    with assms True k have "s' = s \<and> w' = w1 \<and> r = Some e"
      by (auto simp: save_crypto_data_def)
    with w1 show ?thesis by auto
  next
    case (Inr changed)
    show ?thesis
    proof (cases "new \<or> changed")
      case False
      with assms True k Inr have "s' = s \<and> w' = w1"
        by (auto simp: save_crypto_data_def)
      moreover have "\<not> (new \<or> (\<exists>md0. crypto_data s = Some md0 \<and>
                  check_string_key E md0 (string_key s) (encryption_text_encoding s)
                    = Inl InvalidKeyError))"
        using False Inr chg by auto
      ultimately show ?thesis using w1 by auto
    next
      case go: True
      let ?w2 = "w1\<lparr>trace := trace w1 @ [MakeNew (string_key s)]\<rparr>"
      obtain res n where mk: "make_new E (string_key s) (encryption_text_encoding s) (rnd ?w2) = (res, n)"
        by (cases "make_new E (string_key s) (encryption_text_encoding s) (rnd ?w2)")
      have "(\<exists>md. s' = s\<lparr>crypto_data := Some md\<rparr> \<or> s' = s) \<and> w' = ?w2\<lparr>rnd := n\<rparr>"
        using assms True k Inr go mk
        by (cases res) (auto simp: save_crypto_data_def Let_def)
      with w1 show ?thesis by auto
    qed
  qed
qed

text \<open>
  Claim C3. The events of every \<^verbatim>\<open>save\<close> with encryption on are, in this order: the events
  of the key check and of the regeneration of the metadata, then an initial part of the
  sequence: encryption of the plaintext, opening of the data file, writing of the ciphertext
  to the data file, opening of the metadata file, writing of the dumped metadata to the
  metadata file. When \<^verbatim>\<open>save\<close> succeeds the sequence is complete, the encryption used the
  metadata the store holds afterwards, and the regeneration is among the events before the
  encryption whenever \<^verbatim>\<open>_new\<close> is true or the key check signalled \<open>InvalidKeyError\<close>.
\<close>

theorem encrypted_save_order:
  assumes "encryption s" and "save E new s w = (r, s', w')"
  shows "\<exists>pre post md plain c cf crypto_text.
    trace w' = trace w @ pre @ post \<and>
    (\<forall>e \<in> set pre. is_key_event e) \<and>
    prefix post [Encrypt md plain,
                 OpenFile (db_file_name s) (binary_mode new), WriteFile (db_file_name s) c,
                 OpenFile cf (text_mode new), WriteFile cf crypto_text] \<and>
    (r = None \<longrightarrow>
       post = [Encrypt md plain,
               OpenFile (db_file_name s) (binary_mode new), WriteFile (db_file_name s) c,
               OpenFile cf (text_mode new), WriteFile cf crypto_text] \<and>
       crypto_data s' = Some md \<and> (\<exists>n. fst (encrypt E md plain n) = Inr c) \<and>
       crypto_data_file_name s = Some cf \<and> interop_dump E md = Inr crypto_text \<and>
       (new \<or> (\<exists>md0. crypto_data s = Some md0 \<and>
                 check_string_key E md0 (string_key s) (encryption_text_encoding s)
                   = Inl InvalidKeyError)
        \<longrightarrow> MakeNew (string_key s) \<in> set pre))"
proof (cases "db s = PNone")
  case True
  with assms(2) have "w' = w \<and> r \<noteq> None" by (auto simp: save_def)
  then have "trace w' = trace w @ [] @ [] \<and> r \<noteq> None" by simp
  then show ?thesis by (metis empty_iff list.set(1) prefix_bot.bot_least)
next
  case False
  obtain r1 s1 w1 where c: "save_crypto_data E new s w = (r1, s1, w1)"
    by (cases "save_crypto_data E new s w")
  from save_crypto_data_trace [OF c] obtain pre where
    p: "encryption s1 = encryption s" "db_file_name s1 = db_file_name s"
      "crypto_data_file_name s1 = crypto_data_file_name s"
      "trace w1 = trace w @ pre" "\<forall>e \<in> set pre. is_key_event e"
      "r1 = None \<and> encryption s \<and>
        (new \<or> (\<exists>md0. crypto_data s = Some md0 \<and>
                  check_string_key E md0 (string_key s) (encryption_text_encoding s)
                    = Inl InvalidKeyError))
        \<longrightarrow> MakeNew (string_key s) \<in> set pre"
    by auto
  show ?thesis
  proof (cases r1)
    case (Some e)
    with assms(2) False c have "w' = w1 \<and> r \<noteq> None" by (auto simp: save_def)
    then have "trace w' = trace w @ pre @ [] \<and> r \<noteq> None" using p(4) by simp
    with p(5) show ?thesis by (metis prefix_bot.bot_least)
  next
    case None
    with assms False c p(1) have se: "save_encrypted E new s1 w1 = (r, s', w')"
      by (simp add: save_def)
    from save_encrypted_trace [OF se] obtain md plain c' cf crypto_text post where
      q: "s' = s1" "trace w' = trace w1 @ post"
        "prefix post [Encrypt md plain,
                    OpenFile (db_file_name s1) (binary_mode new), WriteFile (db_file_name s1) c',
                    OpenFile cf (text_mode new), WriteFile cf crypto_text]"
        "post \<noteq> [] \<longrightarrow> crypto_data s1 = Some md"
        "r = None \<longrightarrow>
          post = [Encrypt md plain,
                  OpenFile (db_file_name s1) (binary_mode new), WriteFile (db_file_name s1) c',
                  OpenFile cf (text_mode new), WriteFile cf crypto_text] \<and>
          fst (encrypt E md plain (rnd w1)) = Inr c' \<and>
          crypto_data_file_name s1 = Some cf \<and> interop_dump E md = Inr crypto_text"
      by blast
    have t: "trace w' = trace w @ pre @ post" using q(2) p(4) by simp
    have full: "r = None \<longrightarrow>
       post = [Encrypt md plain,
               OpenFile (db_file_name s) (binary_mode new), WriteFile (db_file_name s) c',
               OpenFile cf (text_mode new), WriteFile cf crypto_text] \<and>
       crypto_data s' = Some md \<and> (\<exists>n. fst (encrypt E md plain n) = Inr c') \<and>
       crypto_data_file_name s = Some cf \<and> interop_dump E md = Inr crypto_text \<and>
       (new \<or> (\<exists>md0. crypto_data s = Some md0 \<and>
                 check_string_key E md0 (string_key s) (encryption_text_encoding s)
                   = Inl InvalidKeyError)
        \<longrightarrow> MakeNew (string_key s) \<in> set pre)"
      using q(1,4,5) p(2,3,6) None assms(1) by auto
    from t p(5) q(3) full show ?thesis unfolding p(2) by blast
  qed
qed

theorem encrypted_save_order_witness:
  "encryption rotated_store \<and>
   save toy_env False rotated_store dict_world =
     (None, rotated_store\<lparr>crypto_data := Some ''new''\<rparr>, rotated_world) \<and>
   (\<exists>pre post md plain c cf crypto_text.
      trace rotated_world = trace dict_world @ pre @ post \<and>
      (\<forall>e \<in> set pre. is_key_event e) \<and>
      post = [Encrypt md plain,
              OpenFile (db_file_name rotated_store) (binary_mode False),
              WriteFile (db_file_name rotated_store) c,
              OpenFile cf (text_mode False), WriteFile cf crypto_text] \<and>
      MakeNew (string_key rotated_store) \<in> set pre)"
proof -
  have e: "encryption rotated_store"
    by (simp add: rotated_store_def secret_store_def init_def)
  have k: "\<exists>md0. crypto_data rotated_store = Some md0 \<and>
      check_string_key toy_env md0 (string_key rotated_store)
        (encryption_text_encoding rotated_store) = Inl InvalidKeyError"
    by (simp add: rotated_store_def secret_store_def init_def toy_check_def)
  from encrypted_save_order [OF e rotated_save] k
  have "\<exists>pre post md plain c cf crypto_text.
      trace rotated_world = trace dict_world @ pre @ post \<and>
      (\<forall>e \<in> set pre. is_key_event e) \<and>
      post = [Encrypt md plain,
              OpenFile (db_file_name rotated_store) (binary_mode False),
              WriteFile (db_file_name rotated_store) c,
              OpenFile cf (text_mode False), WriteFile cf crypto_text] \<and>
      MakeNew (string_key rotated_store) \<in> set pre"
    by blast
  with e rotated_save show ?thesis by blast
qed

subsection \<open>Creation from the default \<^verbatim>\<open>{}\<close>\<close>

lemma deepcopy_empty_dict:
  assumes "a < length h" "h ! a = PyDict []"
  shows "deepcopy (length h) (PRef a) (h, []) =
           Some (PRef (length h), h @ [PyDict []], [(a, length h)])"
proof -
  from assms(1) obtain n where n: "length h = Suc n" by (cases "length h") auto
  have "deepcopy (Suc n) (PRef a) (h, []) =
           Some (PRef (length h), h @ [PyDict []], [(a, length h)])"
    using assms by simp
  with n show ?thesis by simp
qed

text \<open>
  Claim C4. Let the default of a store be an empty dict (an object of the caller, at address
  \<open>a\<close>), let the data file not exist but may be created, and let \<^verbatim>\<open>{}\<close> be serialisable; with
  encryption, let the metadata path be given, not be a directory and may be opened, and let
  the Crypto Provider make metadata, encrypt and dump without error. Then \<^verbatim>\<open>load\<close> with
  \<^verbatim>\<open>create_if_nonexistent = True\<close> succeeds with \<open>loaded\<close> true; the in-memory mapping is a new
  object, different from the default object, that denotes \<^verbatim>\<open>{}\<close>, and it still does after any
  object that existed before the call (the caller's default among them) is overwritten; the
  data file exists afterwards, and with encryption so does the metadata file.
\<close>

theorem load_creates_from_empty_default:
  assumes "\<not> path_exists (fs w) (db_file_name s)"
    and "default_value s = PRef a" and "a < length (heap w)" and "heap w ! a = PyDict []"
    and "json_dumps E (JDict []) = Inr text" and "openable w (db_file_name s)"
    and "encryption s \<longrightarrow>
           crypto_data_file_name s = Some cf \<and> fs w cf \<noteq> Some Dir \<and> openable w cf \<and>
           make_new E (string_key s) (encryption_text_encoding s) (rnd w) = (Inr md, r1) \<and>
           str_encode E (encryption_text_encoding s) text = Inr plain \<and>
           encrypt E md plain r1 = (Inr c, r2) \<and>
           interop_dump E md = Inr crypto_text"
  shows "\<exists>s' w'. load E True s w = (None, s', w') \<and> loaded s' \<and>
           db s' = PRef (length (heap w)) \<and> db s' \<noteq> default_value s \<and>
           heap w' = heap w @ [PyDict []] \<and>
           reify (length (heap w')) (heap w') (db s') = Some (JDict []) \<and>
           (\<forall>b obj. b < length (heap w) \<longrightarrow>
              reify (length (heap w')) ((heap w')[b := obj]) (db s') = Some (JDict [])) \<and>
           path_isfile (fs w') (db_file_name s) \<and>
           (\<not> encryption s \<longrightarrow> fs w' = (fs w)(db_file_name s \<mapsto> File text)) \<and>
           (encryption s \<longrightarrow> path_isfile (fs w') cf \<and>
              fs w' = (fs w)(db_file_name s \<mapsto> File c, cf \<mapsto> File crypto_text))"
proof -
  let ?h = "heap w @ [PyDict []]"
  let ?s1 = "s\<lparr>db := PRef (length (heap w)), loaded := True\<rparr>"
  let ?w1 = "w\<lparr>heap := ?h\<rparr>"
  have nd: "fs w (db_file_name s) \<noteq> Some Dir"
    using assms(1) by (simp add: path_exists_def)
  have ld: "load E True s w = save E True ?s1 ?w1"
    using assms(1,2) deepcopy_empty_dict [OF assms(3,4)]
    by (simp add: load_def load_create_def)
  have rf: "reify (length ?h) ?h (PRef (length (heap w))) = Some (JDict [])"
    by simp
  have fresh: "\<forall>b obj. b < length (heap w) \<longrightarrow>
      reify (length ?h) (?h[b := obj]) (PRef (length (heap w))) = Some (JDict [])"
    by (simp add: list_update_append nth_append)
  have ne: "PRef (length (heap w)) \<noteq> default_value s"
    using assms(2,3) by simp
  show ?thesis
  proof (cases "encryption s")
    case False
    have "save E True ?s1 ?w1 =
       (None, ?s1, ?w1\<lparr>fs := (fs ?w1)(db_file_name ?s1 \<mapsto> File text),
          trace := trace ?w1 @ [OpenFile (db_file_name ?s1) (text_mode True),
                                WriteFile (db_file_name ?s1) text]\<rparr>)"
      by (rule save_plain_succeeds [where M = "JDict []"])
        (use False assms(5) openableD [OF assms(6)] nd in simp_all)
    with ld False rf fresh ne show ?thesis
      by (simp add: path_isfile_def)
  next
    case True
    with assms(7) have e: "crypto_data_file_name s = Some cf" "fs w cf \<noteq> Some Dir"
        "openable w cf"
        "make_new E (string_key s) (encryption_text_encoding s) (rnd w) = (Inr md, r1)"
        "str_encode E (encryption_text_encoding s) text = Inr plain"
        "encrypt E md plain r1 = (Inr c, r2)" "interop_dump E md = Inr crypto_text"
      by simp_all
    let ?s2 = "?s1\<lparr>crypto_data := Some md\<rparr>"
    let ?w2 = "?w1\<lparr>trace := trace w @ [MakeNew (string_key s)], rnd := r1\<rparr>"
    have "save E True ?s1 ?w1 = save_encrypted E True ?s2 ?w2"
      using True e(4) by (simp add: save_def save_crypto_data_def)
    also have "\<dots> = (None, ?s2,
        ?w2\<lparr>fs := (fs ?w2)(db_file_name ?s2 \<mapsto> File c, cf \<mapsto> File crypto_text),
          rnd := r2,
          trace := trace ?w2 @ [Encrypt md plain, OpenFile (db_file_name ?s2) (binary_mode True),
                            WriteFile (db_file_name ?s2) c,
                            OpenFile cf (text_mode True), WriteFile cf crypto_text]\<rparr>)"
      by (rule save_encrypted_succeeds [where M = "JDict []" and jtext = "text"])
        (use e assms(5) openableD [OF assms(6)] openableD [OF e(3)] nd in simp_all)
    finally show ?thesis
      using ld True rf fresh ne by (simp add: path_isfile_def)
  qed
qed

theorem load_creates_from_empty_default_witness:
  "\<not> path_exists (fs dict_world) (db_file_name (secret_store ''k'')) \<and>
   default_value (secret_store ''k'') = PRef 0 \<and> 0 < length (heap dict_world) \<and>
   heap dict_world ! 0 = PyDict [] \<and> json_dumps toy_env (JDict []) = Inr ''{}'' \<and>
   openable dict_world (db_file_name (secret_store ''k'')) \<and>
   openable dict_world ''db.cryptodata'' \<and>
   encryption (secret_store ''k'') \<and>
   crypto_data_file_name (secret_store ''k'') = Some ''db.cryptodata'' \<and>
   fs dict_world ''db.cryptodata'' \<noteq> Some Dir \<and>
   make_new toy_env (string_key (secret_store ''k''))
     (encryption_text_encoding (secret_store ''k'')) (rnd dict_world) = (Inr ''k'', 1) \<and>
   str_encode toy_env (encryption_text_encoding (secret_store ''k'')) ''{}'' = Inr ''{}'' \<and>
   encrypt toy_env ''k'' ''{}'' 1 = (Inr ''}{'', 1) \<and> interop_dump toy_env ''k'' = Inr ''k'' \<and>
   (\<exists>s' w'. load toy_env True (secret_store ''k'') dict_world = (None, s', w') \<and> loaded s' \<and>
      db s' = PRef 1 \<and> heap w' = [PyDict [], PyDict []] \<and>
      fs w' = [''db.bin'' \<mapsto> File ''}{'', ''db.cryptodata'' \<mapsto> File ''k''])"
proof -
  let ?s = "secret_store ''k''"
  have h1: "\<not> path_exists (fs dict_world) (db_file_name ?s)"
    by (simp add: path_exists_def dict_world_def)
  have h2: "default_value ?s = PRef 0" by (simp add: secret_store_def init_def)
  have h3: "0 < length (heap dict_world)" by (simp add: dict_world_def)
  have h4: "heap dict_world ! 0 = PyDict []" by (simp add: dict_world_def)
  have h5: "json_dumps toy_env (JDict []) = Inr ''{}''" by (simp add: toy_dumps_def)
  have h5': "openable dict_world (db_file_name ?s)" "openable dict_world ''db.cryptodata''"
    by (simp_all add: dict_world_def openable_def)
  have h6: "crypto_data_file_name ?s = Some ''db.cryptodata'' \<and>
      fs dict_world ''db.cryptodata'' \<noteq> Some Dir \<and>
      make_new toy_env (string_key ?s) (encryption_text_encoding ?s) (rnd dict_world) = (Inr ''k'', 1) \<and>
      str_encode toy_env (encryption_text_encoding ?s) ''{}'' = Inr ''{}'' \<and>
      encrypt toy_env ''k'' ''{}'' 1 = (Inr ''}{'', 1) \<and> interop_dump toy_env ''k'' = Inr ''k''"
    by (simp add: secret_store_def init_def dict_world_def toy_make_new_def toy_codec_def
        toy_encrypt_def)
  have h7: "encryption ?s" by (simp add: secret_store_def init_def)
  from h6 h5' have h6': "encryption ?s \<longrightarrow>
      crypto_data_file_name ?s = Some ''db.cryptodata'' \<and>
      fs dict_world ''db.cryptodata'' \<noteq> Some Dir \<and> openable dict_world ''db.cryptodata'' \<and>
      make_new toy_env (string_key ?s) (encryption_text_encoding ?s) (rnd dict_world) = (Inr ''k'', 1) \<and>
      str_encode toy_env (encryption_text_encoding ?s) ''{}'' = Inr ''{}'' \<and>
      encrypt toy_env ''k'' ''{}'' 1 = (Inr ''}{'', 1) \<and> interop_dump toy_env ''k'' = Inr ''k''"
    by blast
  from load_creates_from_empty_default [OF h1 h2 h3 h4 h5 h5'(1) h6'] h7
  have "\<exists>s' w'. load toy_env True ?s dict_world = (None, s', w') \<and> loaded s' \<and>
      db s' = PRef 1 \<and> heap w' = [PyDict [], PyDict []] \<and>
      fs w' = [''db.bin'' \<mapsto> File ''}{'', ''db.cryptodata'' \<mapsto> File ''k'']"
    by (auto simp: dict_world_def secret_store_def init_def)
  with h1 h2 h3 h4 h5 h5' h6 h7 show ?thesis by blast
qed

subsection \<open>Refusing to create\<close>

text \<open>
  Claim C5. For every store whose data file does not exist, \<^verbatim>\<open>load\<close> with
  \<^verbatim>\<open>create_if_nonexistent = False\<close> raises \<^verbatim>\<open>Exception ("Database file doesn't exist")\<close>, the
  NotFound error; the object and the world are returned as they were, so nothing is written
  to disk, \<open>loaded\<close> keeps its value (false for a store that was never loaded) and the
  in-memory mapping stays absent.
\<close>

theorem load_refuses_missing_file:
  "\<not> path_exists (fs w) (db_file_name s) \<Longrightarrow>
   load E False s w = (Some (Exception ''Database file doesn't exist''), s, w)"
  by (simp add: load_def)

theorem load_refuses_missing_file_witness:
  "\<not> path_exists (fs empty_world) (db_file_name plain_store) \<and>
   load toy_env False plain_store empty_world =
     (Some (Exception ''Database file doesn't exist''), plain_store, empty_world) \<and>
   \<not> loaded plain_store \<and> db plain_store = PNone"
proof -
  have h: "\<not> path_exists (fs empty_world) (db_file_name plain_store)"
    by (simp add: path_exists_def empty_world_def)
  show ?thesis
    using h load_refuses_missing_file [OF h, of toy_env]
    by (simp add: plain_store_def init_def)
qed

subsection \<open>The precondition of \<^verbatim>\<open>save\<close>\<close>

lemma not_raised:
  assumes "e \<notin> save_collaborator_errors E"
  shows "json_dumps E t \<noteq> Inl e" "str_encode E encoding text \<noteq> Inl e"
    "make_new E k encoding r \<noteq> (Inl e, r')" "check_string_key E md k encoding \<noteq> Inl e"
    "encrypt E md p r \<noteq> (Inl e, r')" "interop_dump E md \<noteq> Inl e"
proof -
  show "json_dumps E t \<noteq> Inl e" "str_encode E encoding text \<noteq> Inl e"
    "check_string_key E md k encoding \<noteq> Inl e" "interop_dump E md \<noteq> Inl e"
    using assms by (auto simp: save_collaborator_errors_def)
  show "make_new E k encoding r \<noteq> (Inl e, r')"
  proof
    assume "make_new E k encoding r = (Inl e, r')"
    then have "fst (make_new E k encoding r) = Inl e" by simp
    with assms show False unfolding save_collaborator_errors_def by blast
  qed
  show "encrypt E md p r \<noteq> (Inl e, r')"
  proof
    assume "encrypt E md p r = (Inl e, r')"
    then have "fst (encrypt E md p r) = Inl e" by simp
    with assms show False unfolding save_collaborator_errors_def by blast
  qed
qed

lemma save_crypto_data_not_raised:
  assumes "not_loaded_error \<notin> save_collaborator_errors E"
  shows "save_crypto_data E new s w \<noteq> (Some not_loaded_error, s', w')"
  using not_raised(3,4) [OF assms]
  by (auto simp: save_crypto_data_def key_rotation_check_def Let_def not_loaded_error_def
        split: if_splits option.splits sum.splits prod.splits)

lemma save_plain_not_raised:
  assumes "not_loaded_error \<notin> save_collaborator_errors E"
  shows "save_plain E new s w \<noteq> (Some not_loaded_error, s', w')"
  using not_raised(1) [OF assms]
  by (auto simp: save_plain_def open_write_def py_dumps_def not_loaded_error_def
        split: option.splits node.splits sum.splits)

lemma save_write_files_not_raised:
  assumes "not_loaded_error \<notin> save_collaborator_errors E"
  shows "save_write_files E new md c s w \<noteq> (Some not_loaded_error, s', w')"
  using not_raised(6) [OF assms]
  by (auto simp: save_write_files_def open_write_def Let_def not_loaded_error_def
        split: option.splits node.splits sum.splits)

lemma save_encrypted_not_raised:
  assumes "not_loaded_error \<notin> save_collaborator_errors E"
  shows "save_encrypted E new s w \<noteq> (Some not_loaded_error, s', w')"
  using not_raised(1,2,5) [OF assms] save_write_files_not_raised [OF assms]
  by (auto simp: save_encrypted_def py_dumps_def Let_def not_loaded_error_def
        split: option.splits sum.splits prod.splits)

lemma toy_never_asserts: "not_loaded_error \<notin> save_collaborator_errors toy_env"
  by (auto simp: save_collaborator_errors_def not_loaded_error_def toy_dumps_def toy_codec_def
        toy_make_new_def toy_check_def toy_encrypt_def split: option.splits if_splits)

text \<open>
  Claim C6, as the code has it. The claim reads: \<^verbatim>\<open>save\<close> fails with the NotLoaded error if
  and only if \<open>loaded\<close> is false. Line 43 tests \<^verbatim>\<open>self._db is not None\<close>, not the flag. So
  \<^verbatim>\<open>save\<close> raises \<^verbatim>\<open>AssertionError ("The database needs to be loaded first!")\<close> if and only
  if the in-memory mapping is \<^verbatim>\<open>None\<close> (no collaborator raising that very assertion), and
  then it returns the object and the world as they were: no disk write, no state change.
\<close>

theorem save_needs_mapping:
  assumes "not_loaded_error \<notin> save_collaborator_errors E"
  shows "(fst (save E new s w) = Some not_loaded_error \<longleftrightarrow> db s = PNone) \<and>
         (db s = PNone \<longrightarrow> save E new s w = (Some not_loaded_error, s, w))"
proof (cases "db s = PNone")
  case True
  then show ?thesis by (simp add: save_def not_loaded_error_def)
next
  case False
  obtain r s1 w1 where c: "save_crypto_data E new s w = (r, s1, w1)"
    by (cases "save_crypto_data E new s w")
  have "fst (save E new s w) \<noteq> Some not_loaded_error"
  proof (cases r)
    case None
    obtain r2 s2 w2 where p: "save_plain E new s1 w1 = (r2, s2, w2)"
      by (cases "save_plain E new s1 w1")
    obtain r3 s3 w3 where q: "save_encrypted E new s1 w1 = (r3, s3, w3)"
      by (cases "save_encrypted E new s1 w1")
    show ?thesis
      using False c None p q save_plain_not_raised [OF assms, of new s1 w1 s2 w2]
        save_encrypted_not_raised [OF assms, of new s1 w1 s3 w3]
      by (auto simp: save_def)
  next
    case (Some e)
    then show ?thesis
      using False c save_crypto_data_not_raised [OF assms, of new s w s1 w1]
      by (auto simp: save_def)
  qed
  with False show ?thesis by simp
qed

theorem save_needs_mapping_witness:
  "not_loaded_error \<notin> save_collaborator_errors toy_env \<and>
   db (plain_store\<lparr>loaded := True\<rparr>) = PNone \<and>
   save toy_env False (plain_store\<lparr>loaded := True\<rparr>) dict_world =
     (Some not_loaded_error, plain_store\<lparr>loaded := True\<rparr>, dict_world)"
  using save_needs_mapping [OF toy_never_asserts, of False "plain_store\<lparr>loaded := True\<rparr>" dict_world]
    toy_never_asserts
  by (simp add: plain_store_def init_def)

text \<open>
  The claim as stated fails in both directions. The first store is in the state in which
  line 40 of \<^verbatim>\<open>load\<close> calls \<^verbatim>\<open>save\<close>: the mapping is there, \<open>loaded\<close> is still false, and
  \<^verbatim>\<open>save\<close> succeeds and writes both files. The second store has \<open>loaded\<close> true and no mapping
  (what a creating \<^verbatim>\<open>load\<close> with the default \<^verbatim>\<open>None\<close> leaves), and \<^verbatim>\<open>save\<close> raises the
  NotLoaded error.
\<close>

theorem save_loaded_flag_counterexample:
  "\<not> (fst (save toy_env False checked_store
            dict_world) = Some not_loaded_error
      \<longleftrightarrow> \<not> loaded checked_store) \<and>
   fst (save toy_env False checked_store
            dict_world) = None \<and>
   \<not> (fst (save toy_env False (plain_store\<lparr>loaded := True\<rparr>) dict_world) = Some not_loaded_error
      \<longleftrightarrow> \<not> loaded (plain_store\<lparr>loaded := True\<rparr>))"
  by (simp add: checked_store_def secret_store_def plain_store_def init_def dict_world_def save_def
      save_crypto_data_def key_rotation_check_def save_encrypted_def save_write_files_def
      open_write_def write_file_def text_mode_def binary_mode_def py_dumps_def toy_dumps_def
      toy_codec_def toy_check_def toy_encrypt_def not_loaded_error_def)

subsection \<open>Saving and loading without encryption\<close>

text \<open>
  Claim C7. Let a store without encryption hold a mapping that denotes the tree \<open>M\<close>, and
  let \<open>M\<close> be representable: \<^verbatim>\<open>json.dumps\<close> gives a text that \<^verbatim>\<open>json.loads\<close> reads back as
  \<open>M\<close>. Then \<^verbatim>\<open>save\<close> succeeds, and a following \<^verbatim>\<open>load\<close> (of this store or of any plain store
  on the same data file, in any world with the file system \<^verbatim>\<open>save\<close> left) succeeds and its
  in-memory mapping denotes \<open>M\<close> again. The data file is not a directory and may be opened.
\<close>

theorem plain_save_load_roundtrip:
  assumes "\<not> encryption s"
    and "reify (length (heap w)) (heap w) (db s) = Some M" and "M \<noteq> JNull"
    and "json_dumps E M = Inr text" and "json_loads E text = Inr M"
    and "fs w (db_file_name s) \<noteq> Some Dir" and "openable w (db_file_name s)"
  shows "\<exists>w1. save E new s w = (None, s, w1) \<and> openable w1 = openable w \<and>
           (\<forall>t w1'. db_file_name t = db_file_name s \<and> \<not> encryption t \<and> fs w1' = fs w1 \<and>
                    openable w1' (db_file_name s) \<longrightarrow>
              (\<exists>t2 w2. load E create t w1' = (None, t2, w2) \<and> loaded t2 \<and>
                 reify (length (heap w2)) (heap w2) (db t2) = Some M))"
proof -
  from assms(2,3) have nn: "db s \<noteq> PNone" by auto
  let ?w1 = "w\<lparr>fs := (fs w)(db_file_name s \<mapsto> File text),
                 trace := trace w @ [OpenFile (db_file_name s) (text_mode new),
                                     WriteFile (db_file_name s) text]\<rparr>"
  have sv: "save E new s w = (None, s, ?w1)"
    by (rule save_plain_succeeds [OF assms(1) nn assms(2,4,6)])
      (use openableD [OF assms(7)] in simp_all)
  have "\<exists>t2 w2. load E create t w1' = (None, t2, w2) \<and> loaded t2 \<and>
           reify (length (heap w2)) (heap w2) (db t2) = Some M"
    if t: "db_file_name t = db_file_name s" "\<not> encryption t" "fs w1' = fs ?w1"
      "openable w1' (db_file_name s)" for t w1'
  proof -
    obtain v h' where b: "build M (heap w1') = (v, h')" by (cases "build M (heap w1')")
    have f: "fs w1' (db_file_name t) = Some (File text)" using t by simp
    have o: "readable w1' (db_file_name t)" using t openableD by auto
    have "load E create t w1' = (None, t\<lparr>db := v, loaded := True\<rparr>,
        w1'\<lparr>trace := trace w1' @ [ReadFile (db_file_name t)], heap := h'\<rparr>)"
      by (rule load_plain_succeeds [OF t(2) f o assms(5) b])
    moreover have "reify (length h') h' v = Some M" by (rule build_reify [OF b])
    ultimately show ?thesis by simp
  qed
  moreover have "openable ?w1 = openable w" by simp
  ultimately show ?thesis using sv by blast
qed

theorem plain_save_load_roundtrip_witness:
  "\<not> encryption (plain_store\<lparr>db := PRef 0\<rparr>) \<and>
   reify (length (heap dict_world)) (heap dict_world) (db (plain_store\<lparr>db := PRef 0\<rparr>)) = Some (JDict []) \<and>
   JDict [] \<noteq> JNull \<and> json_dumps toy_env (JDict []) = Inr ''{}'' \<and>
   json_loads toy_env ''{}'' = Inr (JDict []) \<and>
   fs dict_world (db_file_name (plain_store\<lparr>db := PRef 0\<rparr>)) \<noteq> Some Dir \<and>
   openable dict_world (db_file_name (plain_store\<lparr>db := PRef 0\<rparr>)) \<and>
   (\<exists>w1. save toy_env False (plain_store\<lparr>db := PRef 0\<rparr>) dict_world
            = (None, plain_store\<lparr>db := PRef 0\<rparr>, w1) \<and>
      (\<exists>t2 w2. load toy_env True plain_store w1 = (None, t2, w2) \<and> loaded t2 \<and>
         reify (length (heap w2)) (heap w2) (db t2) = Some (JDict [])))"
proof -
  let ?s = "plain_store\<lparr>db := PRef 0\<rparr>"
  have a: "\<not> encryption ?s" by (simp add: plain_store_def init_def)
  have b: "reify (length (heap dict_world)) (heap dict_world) (db ?s) = Some (JDict [])"
    by (simp add: dict_world_def)
  have c: "JDict [] \<noteq> JNull" by simp
  have d: "json_dumps toy_env (JDict []) = Inr ''{}''" by (simp add: toy_dumps_def)
  have e: "json_loads toy_env ''{}'' = Inr (JDict [])" by (simp add: toy_loads_def)
  have f: "fs dict_world (db_file_name ?s) \<noteq> Some Dir" by (simp add: dict_world_def)
  have o: "openable dict_world (db_file_name ?s)" by (simp add: dict_world_def openable_def)
  have g: "db_file_name plain_store = db_file_name ?s \<and> \<not> encryption plain_store"
    by (simp add: plain_store_def init_def)
  from plain_save_load_roundtrip [OF a b c d e f o, of False True]
  obtain w1 where
    r: "save toy_env False ?s dict_world = (None, ?s, w1)" "openable w1 = openable dict_world"
      "\<forall>t w1'. db_file_name t = db_file_name ?s \<and> \<not> encryption t \<and> fs w1' = fs w1 \<and>
                    openable w1' (db_file_name ?s) \<longrightarrow>
              (\<exists>t2 w2. load toy_env True t w1' = (None, t2, w2) \<and> loaded t2 \<and>
                 reify (length (heap w2)) (heap w2) (db t2) = Some (JDict []))"
    by blast
  have "openable w1 (db_file_name ?s)" using r(2) o by simp
  with r(3) [THEN spec, of plain_store, THEN spec, of w1] g
  have "\<exists>t2 w2. load toy_env True plain_store w1 = (None, t2, w2) \<and> loaded t2 \<and>
         reify (length (heap w2)) (heap w2) (db t2) = Some (JDict [])"
    by blast
  with r(1) a b c d e f o show ?thesis by blast
qed

subsection \<open>The mapping delegation surface\<close>

lemma fold_setattr:
  "fold (\<lambda>n attrs. attrs(n \<mapsto> f n)) names attrs0 k =
     (if k \<in> set names then Some (f k) else attrs0 k)"
  by (induction names arbitrary: attrs0) auto

lemma class_attrs_lookup:
  "class_attrs E name =
     (if name \<in> set proxied_names then Some (proxy_function_creator E name) else None)"
  by (simp add: class_attrs_def fold_setattr)

text \<open>
  Each of the fifteen operations (\<^verbatim>\<open>__contains__\<close>, \<^verbatim>\<open>__getitem__\<close>, \<^verbatim>\<open>__setitem__\<close>,
  \<^verbatim>\<open>__delitem__\<close>, \<^verbatim>\<open>clear\<close>, \<^verbatim>\<open>copy\<close>, \<^verbatim>\<open>fromkeys\<close>, \<^verbatim>\<open>get\<close>, \<^verbatim>\<open>items\<close>, \<^verbatim>\<open>keys\<close>, \<^verbatim>\<open>pop\<close>,
  \<^verbatim>\<open>popitem\<close>, \<^verbatim>\<open>setdefault\<close>, \<^verbatim>\<open>update\<close>, \<^verbatim>\<open>values\<close>) is an attribute of the class, and a
  call of it that passes no keyword argument named \<^verbatim>\<open>self\<close> gives the result and the heap
  that the same operation gives when applied directly to the mapping the store holds; the
  attributes of the store, the file system and the trace stay as they are; and the call does
  the same whatever the \<open>loaded\<close> flag is.
\<close>

lemma proxies_forward:
  assumes "name \<in> {''__contains__'', ''__getitem__'', ''__setitem__'', ''__delitem__'', ''clear'',
                   ''copy'', ''fromkeys'', ''get'', ''items'', ''keys'', ''pop'', ''popitem'',
                   ''setdefault'', ''update'', ''values''}"
    and "''self'' \<notin> set (map fst (snd args))"
  shows "call_proxy E name self args w =
           (case mapping_call E name (db self) args (heap w) of
              (res, h') \<Rightarrow> (res, self, w\<lparr>heap := h'\<rparr>)) \<and>
         fs (snd (snd (call_proxy E name self args w))) = fs w \<and>
         trace (snd (snd (call_proxy E name self args w))) = trace w \<and>
         (\<forall>b. call_proxy E name (self\<lparr>loaded := b\<rparr>) args w =
            (case call_proxy E name self args w of
               (res, self', w') \<Rightarrow> (res, self'\<lparr>loaded := b\<rparr>, w')))"
proof -
  from assms(1) have n: "name \<in> set proxied_names"
    by (auto simp: proxied_names_def)
  have c: "call_proxy E name self' args w =
      (case py_getattr E (heap w) (db self') name of
         Inl e \<Rightarrow> (Inl e, self', w)
       | Inr bound_method \<Rightarrow>
           (case bound_method args (heap w) of (r, h') \<Rightarrow> (r, self', w\<lparr>heap := h'\<rparr>)))"
    for self' :: "'a store"
    using n assms(2) by (simp add: call_proxy_def class_attrs_lookup proxy_function_creator_def)
  show ?thesis
    unfolding c by (auto simp: mapping_call_def split: sum.splits prod.splits)
qed

text \<open>A call of any of the fifteen operations that passes a keyword argument named
  \<^verbatim>\<open>self\<close> raises \<^verbatim>\<open>TypeError\<close> and does nothing else.\<close>

lemma proxies_reject_self_keyword:
  assumes "name \<in> {''__contains__'', ''__getitem__'', ''__setitem__'', ''__delitem__'', ''clear'',
                   ''copy'', ''fromkeys'', ''get'', ''items'', ''keys'', ''pop'', ''popitem'',
                   ''setdefault'', ''update'', ''values''}"
    and "''self'' \<in> set (map fst (snd args))"
  shows "call_proxy E name self args w = (Inl multiple_values_for_self, self, w)"
proof -
  from assms(1) have "name \<in> set proxied_names"
    by (auto simp: proxied_names_def)
  with assms(2) show ?thesis
    by (simp add: call_proxy_def class_attrs_lookup proxy_function_creator_def)
qed

text \<open>
  Claim C8, where the code departs from it. The claim reads: every exposed mapping operation,
  called on a loaded store, behaves as the same operation applied to an equivalent standalone
  mapping. On a loaded store whose mapping is \<^verbatim>\<open>{}\<close>, the call \<^verbatim>\<open>store.update (self = 1)\<close>
  raises \<^verbatim>\<open>TypeError\<close> and leaves the mapping, the store and the world as they were, whereas
  \<^verbatim>\<open>{}.update (self = 1)\<close> on the mapping itself returns \<^verbatim>\<open>None\<close> and leaves \<^verbatim>\<open>{'self': 1}\<close>. With
  any other keyword the two agree: \<^verbatim>\<open>store.update (a = 1)\<close> returns \<^verbatim>\<open>None\<close> and leaves
  \<^verbatim>\<open>{'a': 1}\<close>.
\<close>

theorem proxy_update_self_keyword:
  "loaded mapping_store \<and>
   call_proxy toy_env ''update'' mapping_store ([], [(''self'', PInt 1)]) dict_world =
     (Inl multiple_values_for_self, mapping_store, dict_world) \<and>
   mapping_call toy_env ''update'' (db mapping_store) ([], [(''self'', PInt 1)]) (heap dict_world) =
     (Inr PNone, [PyDict [(''self'', PInt 1)]]) \<and>
   call_proxy toy_env ''update'' mapping_store ([], [(''a'', PInt 1)]) dict_world =
     (Inr PNone, mapping_store, dict_world\<lparr>heap := [PyDict [(''a'', PInt 1)]]\<rparr>) \<and>
   mapping_call toy_env ''update'' (db mapping_store) ([], [(''a'', PInt 1)]) (heap dict_world) =
     (Inr PNone, [PyDict [(''a'', PInt 1)]])"
  by (simp add: call_proxy_def class_attrs_lookup proxied_names_def proxy_function_creator_def
      mapping_call_def mapping_store_def plain_store_def init_def dict_world_def
      toy_getattr_def toy_dict_call_def dict_setitem_def)

subsection \<open>The \<^verbatim>\<open>_new\<close> flag of a plain \<^verbatim>\<open>save\<close>\<close>





subsection \<open>Creation with the default \<^verbatim>\<open>None\<close>\<close>

text \<open>
  Claim C10. For every store whose default is \<^verbatim>\<open>None\<close> (the constructor's default) and
  whose data file does not exist, \<^verbatim>\<open>load\<close> with \<^verbatim>\<open>create_if_nonexistent = True\<close> raises
  \<^verbatim>\<open>AssertionError ("The database needs to be loaded first!")\<close>. The error comes from the
  call of \<^verbatim>\<open>save\<close> at line 26, whose check looks at the mapping and not at the flag: that
  call is made with \<open>loaded\<close> already true. The store is left with \<open>loaded\<close> true and no
  mapping, and nothing is written.
\<close>

theorem load_default_none_fails:
  "\<not> path_exists (fs w) (db_file_name s) \<Longrightarrow> default_value s = PNone \<Longrightarrow>
   load E True s w = (Some not_loaded_error, s\<lparr>db := PNone, loaded := True\<rparr>, w) \<and>
   load E True s w = save E True (s\<lparr>db := PNone, loaded := True\<rparr>) w \<and>
   loaded (s\<lparr>db := PNone, loaded := True\<rparr>)"
  by (simp add: load_def load_create_def save_def not_loaded_error_def)

theorem load_default_none_fails_witness:
  "\<not> path_exists (fs empty_world) (db_file_name (init_defaults ''db.json'' :: string store)) \<and>
   default_value (init_defaults ''db.json'' :: string store) = PNone \<and>
   load toy_env True (init_defaults ''db.json'') empty_world =
     (Some (AssertionError ''The database needs to be loaded first!''),
      (init_defaults ''db.json'')\<lparr>loaded := True\<rparr>, empty_world)"
proof -
  have h: "\<not> path_exists (fs empty_world) (db_file_name (init_defaults ''db.json'' :: string store))"
    by (simp add: path_exists_def empty_world_def)
  have d: "default_value (init_defaults ''db.json'' :: string store) = PNone"
    by (simp add: init_defaults_def init_def)
  show ?thesis
    using h d load_default_none_fails [OF h d, of toy_env]
    by (simp add: init_defaults_def init_def not_loaded_error_def)
qed

end
